theory Spec2Isabelle
  imports Main "HOL-Library.Word"
begin

section \<open>JavaScript strings and arrays\<close>

text \<open>
  A JavaScript string is a sequence of 16-bit code units. The built-in methods
  \<^verbatim>\<open>indexOf\<close>, \<^verbatim>\<open>includes\<close>, \<^verbatim>\<open>endsWith\<close> and \<^verbatim>\<open>slice\<close> count in code units;
  the helpers of \<^verbatim>\<open>textUtils\<close> count in code points.
\<close>

type_synonym jsstring = "16 word list"

definition js :: "string \<Rightarrow> jsstring" where
  "js cs = map of_char cs"

definition newline :: "16 word" where
  "newline = 10"

text \<open>\<^verbatim>\<open>s.indexOf(q, pos)\<close>: the least index \<open>k\<close> from the clamped position on at which
  \<open>q\<close> occurs in \<open>s\<close>, or \<open>-1\<close>.\<close>

definition occursAt :: "jsstring \<Rightarrow> jsstring \<Rightarrow> nat \<Rightarrow> bool" where
  "occursAt s q k \<longleftrightarrow> take (length q) (drop k s) = q"

definition indexOf :: "jsstring \<Rightarrow> jsstring \<Rightarrow> int \<Rightarrow> int" where
  "indexOf s q pos =
     (let len = length s;
          start = nat (min (max pos 0) (int len))
      in case find (occursAt s q) [start ..< Suc len] of
           Some k \<Rightarrow> int k
         | None \<Rightarrow> - 1)"

definition includesNewline :: "jsstring \<Rightarrow> bool" where
  "includesNewline s \<longleftrightarrow> newline \<in> set s"

definition endsWithNewline :: "jsstring \<Rightarrow> bool" where
  "endsWithNewline s \<longleftrightarrow> s \<noteq> [] \<and> last s = newline"

text \<open>\<^verbatim>\<open>lines[row] || ''\<close>: an index outside the array reads \<^verbatim>\<open>undefined\<close>, which
  \<^verbatim>\<open>||\<close> replaces by the empty string (as it does an empty line).\<close>

definition lineAt :: "jsstring list \<Rightarrow> int \<Rightarrow> jsstring" where
  "lineAt ls r = (if 0 \<le> r \<and> r < int (length ls) then ls ! nat r else [])"

text \<open>\<^verbatim>\<open>lines[i]\<close> alone: \<open>None\<close> stands for \<^verbatim>\<open>undefined\<close>.\<close>

definition lineOpt :: "'a list \<Rightarrow> int \<Rightarrow> 'a option" where
  "lineOpt ls i = (if 0 \<le> i \<and> i < int (length ls) then Some (ls ! nat i) else None)"

text \<open>\<^verbatim>\<open>arr.splice(start, deleteCount)\<close> without inserted items.\<close>

definition splice :: "'a list \<Rightarrow> int \<Rightarrow> int \<Rightarrow> 'a list" where
  "splice xs start deleteCount =
     (let len = int (length xs);
          st = (if start < 0 then max (len + start) 0 else min start len);
          dc = min (max deleteCount 0) (len - st)
      in take (nat st) xs @ drop (nat (st + dc)) xs)"

text \<open>The white-space class \<^verbatim>\<open>\s\<close> of a JavaScript regular expression, tested on a
  string of one code point.\<close>

definition isWhiteSpaceUnit :: "16 word \<Rightarrow> bool" where
  "isWhiteSpaceUnit u \<longleftrightarrow>
     u \<in> {0x9, 0xA, 0xB, 0xC, 0xD, 0x20, 0xA0, 0x1680, 0x2028, 0x2029, 0x202F,
          0x205F, 0x3000, 0xFEFF} \<or> (0x2000 \<le> u \<and> u \<le> 0x200A)"

definition testWhiteSpace :: "jsstring \<Rightarrow> bool" where
  "testWhiteSpace cp \<longleftrightarrow> list_ex isWhiteSpaceUnit cp"

section \<open>Code point utilities (\<^verbatim>\<open>textUtils\<close>)\<close>

definition isHighSurrogate :: "16 word \<Rightarrow> bool" where
  "isHighSurrogate u \<longleftrightarrow> 0xD800 \<le> u \<and> u \<le> 0xDBFF"

definition isLowSurrogate :: "16 word \<Rightarrow> bool" where
  "isLowSurrogate u \<longleftrightarrow> 0xDC00 \<le> u \<and> u \<le> 0xDFFF"

text \<open>Modelled from the spec: \<^verbatim>\<open>toCodePoints\<close> of \<^verbatim>\<open>utils/textUtils\<close>, which is not
  among the sources. The spec (4.1): "materializes the line as an ordered sequence of
  single-codepoint strings". In UTF-16 a code point is one code unit, or a high
  surrogate followed by a low surrogate.\<close>

fun toCodePoints :: "jsstring \<Rightarrow> jsstring list" where
  "toCodePoints [] = []"
| "toCodePoints [u] = [[u]]"
| "toCodePoints (u # v # rest) =
     (if isHighSurrogate u \<and> isLowSurrogate v then [u, v] # toCodePoints rest
      else [u] # toCodePoints (v # rest))"

text \<open>Modelled from the spec: \<^verbatim>\<open>cpLen\<close> of \<^verbatim>\<open>utils/textUtils\<close>. The spec (4.1):
  "number of Unicode codepoints".\<close>

definition cpLen :: "jsstring \<Rightarrow> int" where
  "cpLen s = int (length (toCodePoints s))"

text \<open>Modelled from the spec: \<^verbatim>\<open>cpSlice\<close> of \<^verbatim>\<open>utils/textUtils\<close>. The spec (4.1):
  "codepoints \<open>[start, end)\<close>, clamped to line bounds". The end is optional in the
  callers; without it the slice runs to the end of the line.\<close>

definition cpSlice :: "jsstring \<Rightarrow> int \<Rightarrow> int option \<Rightarrow> jsstring" where
  "cpSlice s start end =
     (let cps = toCodePoints s;
          a = nat start;
          b = (case end of None \<Rightarrow> length cps | Some e \<Rightarrow> nat e)
      in concat (take (b - a) (drop a cps)))"

section \<open>The buffer state\<close>

record UndoHistoryEntry =
  u_lines :: "jsstring list"
  u_cursorRow :: int
  u_cursorCol :: int

text \<open>Modelled from the spec: the type \<^verbatim>\<open>TextBufferState\<close> is declared in
  \<^verbatim>\<open>text-buffer.ts\<close>, which is not among the sources. The fields are those of the
  spec's BufferState (3), under the names the dispatcher reads and writes.\<close>

record TextBufferState =
  lines :: "jsstring list"
  cursorRow :: int
  cursorCol :: int
  preferredCol :: "int option"
  selectionAnchor :: "(int \<times> int) option"
  clipboard :: "jsstring option"
  lastSearchQuery :: "jsstring option"
  undoStack :: "UndoHistoryEntry list"
  redoStack :: "UndoHistoryEntry list"

section \<open>Helpers of \<^verbatim>\<open>text-buffer.ts\<close>\<close>

text \<open>Modelled from the spec: \<^verbatim>\<open>pushUndo\<close> of \<^verbatim>\<open>text-buffer.ts\<close>, which is not among
  the sources. The spec (4.6): "captures \<open>lines\<close> + cursor position onto the undo stack
  before any mutating command proceeds"; (3): the redo stack "is conceptually
  invalidated whenever a new mutating command is dispatched".\<close>

definition snapshot :: "TextBufferState \<Rightarrow> UndoHistoryEntry" where
  "snapshot s = \<lparr>u_lines = lines s, u_cursorRow = cursorRow s, u_cursorCol = cursorCol s\<rparr>"

definition pushUndo :: "TextBufferState \<Rightarrow> TextBufferState" where
  "pushUndo s = s\<lparr>undoStack := undoStack s @ [snapshot s], redoStack := []\<rparr>"

text \<open>Modelled from the spec: the undo command of \<^verbatim>\<open>text-buffer.ts\<close>, which is not
  among the sources. The spec (4.6): "pops the most recent snapshot and restores it as
  current state, pushing the pre-undo state onto the redo stack"; (7): a boundary
  condition is a no-op.\<close>

definition undo :: "TextBufferState \<Rightarrow> TextBufferState" where
  "undo s =
     (if undoStack s = [] then s
      else let e = last (undoStack s)
           in s\<lparr>lines := u_lines e, cursorRow := u_cursorRow e, cursorCol := u_cursorCol e,
                undoStack := butlast (undoStack s),
                redoStack := redoStack s @ [snapshot s]\<rparr>)"

text \<open>Splitting a text at its line breaks, as \<^verbatim>\<open>text.split('\n')\<close> does.\<close>

fun splitLines :: "jsstring \<Rightarrow> jsstring list" where
  "splitLines [] = [[]]"
| "splitLines (u # us) =
     (if u = newline then [] # splitLines us
      else (case splitLines us of
              [] \<Rightarrow> [[u]]
            | p # ps \<Rightarrow> (u # p) # ps))"

text \<open>Modelled from the spec: \<^verbatim>\<open>replaceRangeInternal\<close> of \<^verbatim>\<open>text-buffer.ts\<close>, which is
  not among the sources. The spec (4.4): "removes all content from
  \<open>(startRow, startCol)\<close> inclusive to \<open>(endRow, endCol)\<close> exclusive -- spanning multiple
  lines by concatenating the unaffected prefix of the start line, the unaffected suffix
  of the end line, and any line breaks embedded in \<open>text\<close>, then re-splitting into the
  new line sequence. Cursor is repositioned to the end of the inserted text."
  Positions outside the buffer clamp (4.7: "out-of-range requests clamp rather than
  fail"), and the edit clears \<open>preferredCol\<close> (3: "cleared by any non-vertical motion or
  edit").\<close>

definition replaceRangeInternal ::
  "TextBufferState \<Rightarrow> int \<Rightarrow> int \<Rightarrow> int \<Rightarrow> int \<Rightarrow> jsstring \<Rightarrow> TextBufferState" where
  "replaceRangeInternal s startRow startCol endRow endCol text =
     (let ls = lines s;
          above = take (nat startRow) ls;
          prefix = cpSlice (lineAt ls startRow) 0 (Some startCol);
          suffix = cpSlice (lineAt ls endRow) endCol None;
          parts = splitLines text;
          newLines = above @ splitLines (prefix @ text @ suffix) @ drop (nat endRow + 1) ls;
          finalRow = int (length above) + int (length parts) - 1;
          finalCol = (if length parts > 1 then 0 else cpLen prefix) + cpLen (last parts)
      in s\<lparr>lines := newLines, cursorRow := finalRow, cursorCol := finalCol,
           preferredCol := None\<rparr>)"

text \<open>
  The classifier, the word scanner and the line-range offset translator are imported
  from \<^verbatim>\<open>text-buffer.ts\<close> too. No property below depends on what they compute, so the
  dispatcher takes them as a parameter and every theorem holds for all of them. A
  classifier is applied to an array element, which is \<^verbatim>\<open>undefined\<close> (\<open>None\<close>) outside the
  array.\<close>

record helpers =
  isWordCharStrict :: "jsstring option \<Rightarrow> bool"
  isWordCharWithCombining :: "jsstring option \<Rightarrow> bool"
  isCombiningMark :: "jsstring option \<Rightarrow> bool"
  findNextWordAcrossLines :: "jsstring list \<Rightarrow> int \<Rightarrow> int \<Rightarrow> bool \<Rightarrow> (int \<times> int) option"
  findPrevWordAcrossLines :: "jsstring list \<Rightarrow> int \<Rightarrow> int \<Rightarrow> (int \<times> int) option"
  findWordEndInLine :: "jsstring \<Rightarrow> int \<Rightarrow> int option"
  getLineRangeOffsets :: "int \<Rightarrow> int \<Rightarrow> jsstring list \<Rightarrow> int \<times> int"
  getPositionFromOffsets :: "int \<Rightarrow> int \<Rightarrow> jsstring list \<Rightarrow> int \<times> int \<times> int \<times> int"

section \<open>The commands\<close>

datatype js_error = TypeError

datatype direction = forward | backward

datatype pasteDirection = before | after

text \<open>The movements \<^verbatim>\<open>'h'\<close>, \<^verbatim>\<open>'j'\<close>, \<^verbatim>\<open>'k'\<close> and \<^verbatim>\<open>'l'\<close> of \<^verbatim>\<open>vim_change_movement\<close>.\<close>

datatype movement = mv_h | mv_j | mv_k | mv_l

datatype VimAction =
    vim_delete_word_forward int
  | vim_delete_word_backward int
  | vim_delete_word_end int
  | vim_change_word_forward int
  | vim_change_word_backward int
  | vim_change_word_end int
  | vim_delete_line int
  | vim_change_line int
  | vim_delete_to_end_of_line
  | vim_change_to_end_of_line
  | vim_change_movement movement int
  | vim_move_left int
  | vim_move_right int
  | vim_move_up int
  | vim_move_down int
  | vim_move_word_forward int
  | vim_move_word_backward int
  | vim_move_word_end int
  | vim_delete_char int
  | vim_insert_at_cursor
  | vim_append_at_cursor
  | vim_open_line_below
  | vim_open_line_above
  | vim_append_at_line_end
  | vim_insert_at_line_start
  | vim_move_to_line_start
  | vim_move_to_line_end
  | vim_move_to_first_nonwhitespace
  | vim_move_to_first_line
  | vim_move_to_last_line
  | vim_move_to_line int
  | vim_escape_insert_mode
  | vim_set_selection_anchor
  | vim_clear_selection
  | vim_search jsstring direction
  | vim_search_next direction
  | vim_yank jsstring
  | vim_yank_selection
  | vim_paste pasteDirection

section \<open>Word operators\<close>

text \<open>The loop of \<^verbatim>\<open>vim_delete_word_forward\<close>: \<open>n\<close> iterations are left, \<open>(endRow, endCol)\<close>
  is the position reached.\<close>

fun deleteWordForwardLoop :: "helpers \<Rightarrow> jsstring list \<Rightarrow> nat \<Rightarrow> int \<times> int \<Rightarrow> int \<times> int" where
  "deleteWordForwardLoop H ls 0 (endRow, endCol) = (endRow, endCol)"
| "deleteWordForwardLoop H ls (Suc n) (endRow, endCol) =
     (case findNextWordAcrossLines H ls endRow endCol True of
        Some nextWord \<Rightarrow> deleteWordForwardLoop H ls n nextWord
      | None \<Rightarrow>
          (let currentLine = lineAt ls endRow
           in case findWordEndInLine H currentLine endCol of
                Some wordEnd \<Rightarrow> (endRow, wordEnd + 1)
              | None \<Rightarrow> (endRow, cpLen currentLine)))"

definition deleteWordForward :: "helpers \<Rightarrow> TextBufferState \<Rightarrow> int \<Rightarrow> TextBufferState" where
  "deleteWordForward H s count =
     (case deleteWordForwardLoop H (lines s) (nat count) (cursorRow s, cursorCol s) of
        (endRow, endCol) \<Rightarrow>
          if endRow \<noteq> cursorRow s \<or> endCol \<noteq> cursorCol s
          then replaceRangeInternal (pushUndo s) (cursorRow s) (cursorCol s) endRow endCol []
          else s)"

text \<open>The loop shared by \<^verbatim>\<open>vim_delete_word_backward\<close> and \<^verbatim>\<open>vim_move_word_backward\<close>.\<close>

fun wordBackwardLoop :: "helpers \<Rightarrow> jsstring list \<Rightarrow> nat \<Rightarrow> int \<times> int \<Rightarrow> int \<times> int" where
  "wordBackwardLoop H ls 0 (row, col) = (row, col)"
| "wordBackwardLoop H ls (Suc n) (row, col) =
     (case findPrevWordAcrossLines H ls row col of
        Some prevWord \<Rightarrow> wordBackwardLoop H ls n prevWord
      | None \<Rightarrow> (row, col))"

definition deleteWordBackward :: "helpers \<Rightarrow> TextBufferState \<Rightarrow> int \<Rightarrow> TextBufferState" where
  "deleteWordBackward H s count =
     (case wordBackwardLoop H (lines s) (nat count) (cursorRow s, cursorCol s) of
        (startRow, startCol) \<Rightarrow>
          if startRow \<noteq> cursorRow s \<or> startCol \<noteq> cursorCol s
          then replaceRangeInternal (pushUndo s) startRow startCol (cursorRow s) (cursorCol s) []
          else s)"

text \<open>The loop of \<^verbatim>\<open>vim_delete_word_end\<close> on \<open>(row, col, endRow, endCol)\<close>; the test
  \<^verbatim>\<open>i < count - 1\<close> holds when an iteration is left after this one.\<close>

fun deleteWordEndLoop ::
  "helpers \<Rightarrow> jsstring list \<Rightarrow> nat \<Rightarrow> int \<times> int \<times> int \<times> int \<Rightarrow> int \<times> int \<times> int \<times> int" where
  "deleteWordEndLoop H ls 0 st = st"
| "deleteWordEndLoop H ls (Suc n) (row, col, endRow, endCol) =
     (case findNextWordAcrossLines H ls row col False of
        None \<Rightarrow> (row, col, endRow, endCol)
      | Some (wr, wc) \<Rightarrow>
          if 0 < n then
            (case findNextWordAcrossLines H ls wr (wc + 1) True of
               Some (nr, nc) \<Rightarrow> deleteWordEndLoop H ls n (nr, nc, wr, wc + 1)
             | None \<Rightarrow> (row, col, wr, wc + 1))
          else deleteWordEndLoop H ls n (row, col, wr, wc + 1))"

definition deleteWordEnd :: "helpers \<Rightarrow> TextBufferState \<Rightarrow> int \<Rightarrow> TextBufferState" where
  "deleteWordEnd H s count =
     (case deleteWordEndLoop H (lines s) (nat count)
             (cursorRow s, cursorCol s, cursorRow s, cursorCol s) of
        (row, col, endRow, endCol0) \<Rightarrow>
          (let endCol = (if endRow < int (length (lines s))
                         then min endCol0 (cpLen (lineAt (lines s) endRow)) else endCol0)
           in if endRow \<noteq> cursorRow s \<or> endCol \<noteq> cursorCol s
              then replaceRangeInternal (pushUndo s) (cursorRow s) (cursorCol s) endRow endCol []
              else s))"

section \<open>Line operators\<close>

definition deleteLine :: "TextBufferState \<Rightarrow> int \<Rightarrow> TextBufferState" where
  "deleteLine s count =
     (if length (lines s) = 0 then s
      else let linesToDelete = min count (int (length (lines s)) - cursorRow s);
               totalLines = int (length (lines s))
           in if totalLines = 1 \<or> linesToDelete \<ge> totalLines
              then (pushUndo s)\<lparr>lines := [[]], cursorRow := 0, cursorCol := 0,
                                preferredCol := None\<rparr>
              else let nextState = pushUndo s;
                       newLines = splice (lines nextState) (cursorRow s) linesToDelete;
                       newCursorRow = min (cursorRow s) (int (length newLines) - 1)
                   in nextState\<lparr>lines := newLines, cursorRow := newCursorRow, cursorCol := 0,
                                 preferredCol := None\<rparr>)"

text \<open>The pattern shared by the line-oriented changes: offsets of a run of lines, back to
  positions, then one range replacement.\<close>

definition replaceLineRange :: "helpers \<Rightarrow> TextBufferState \<Rightarrow> int \<Rightarrow> int \<Rightarrow> TextBufferState" where
  "replaceLineRange H nextState row lineCount =
     (case getLineRangeOffsets H row lineCount (lines nextState) of
        (startOffset, endOffset) \<Rightarrow>
          (case getPositionFromOffsets H startOffset endOffset (lines nextState) of
             (startRow, startCol, endRow, endCol) \<Rightarrow>
               replaceRangeInternal nextState startRow startCol endRow endCol []))"

definition changeLine :: "helpers \<Rightarrow> TextBufferState \<Rightarrow> int \<Rightarrow> TextBufferState" where
  "changeLine H s count =
     (if length (lines s) = 0 then s
      else let linesToChange = min count (int (length (lines s)) - cursorRow s)
           in replaceLineRange H (pushUndo s) (cursorRow s) linesToChange)"

definition deleteToEndOfLine :: "TextBufferState \<Rightarrow> TextBufferState" where
  "deleteToEndOfLine s =
     (let currentLine = lineAt (lines s) (cursorRow s)
      in if cursorCol s < cpLen currentLine
         then replaceRangeInternal (pushUndo s) (cursorRow s) (cursorCol s) (cursorRow s)
                (cpLen currentLine) []
         else s)"

fun changeMovement :: "helpers \<Rightarrow> TextBufferState \<Rightarrow> movement \<Rightarrow> int \<Rightarrow> TextBufferState" where
  "changeMovement H s mv_h count =
     (let startCol = max 0 (cursorCol s - count)
      in replaceRangeInternal (pushUndo s) (cursorRow s) startCol (cursorRow s) (cursorCol s) [])"
| "changeMovement H s mv_j count =
     (let totalLines = int (length (lines s));
          linesToChange = min count (totalLines - cursorRow s)
      in if linesToChange > 0 then
           (if totalLines = 1
            then replaceRangeInternal (pushUndo s) 0 0 0 (cpLen (lineAt (lines s) 0)) []
            else replaceLineRange H (pushUndo s) (cursorRow s) linesToChange)
         else s)"
| "changeMovement H s mv_k count =
     (let upLines = min count (cursorRow s + 1)
      in if upLines > 0 then
           (if length (lines s) = 1
            then replaceRangeInternal (pushUndo s) 0 0 0 (cpLen (lineAt (lines s) 0)) []
            else let startRow = max 0 (cursorRow s - count + 1);
                     linesToChange = cursorRow s - startRow + 1;
                     resultState = replaceLineRange H (pushUndo s) startRow linesToChange
                 in resultState\<lparr>cursorRow := startRow, cursorCol := 0\<rparr>)
         else s)"
| "changeMovement H s mv_l count =
     replaceRangeInternal (pushUndo s) (cursorRow s) (cursorCol s) (cursorRow s)
       (min (cpLen (lineAt (lines s) (cursorRow s))) (cursorCol s + count)) []"

section \<open>Motions\<close>

text \<open>One iteration of the loop of \<^verbatim>\<open>vim_move_left\<close> on \<open>(newRow, newCol)\<close>.\<close>

definition moveLeftStep :: "jsstring list \<Rightarrow> int \<times> int \<Rightarrow> int \<times> int" where
  "moveLeftStep ls pos =
     (case pos of (newRow, newCol) \<Rightarrow>
        if newCol > 0 then (newRow, newCol - 1)
        else if newRow > 0 then
          (let prevLineLength = cpLen (lineAt ls (newRow - 1))
           in (newRow - 1, if prevLineLength = 0 then 0 else prevLineLength - 1))
        else (newRow, newCol))"

fun moveLeftLoop :: "jsstring list \<Rightarrow> nat \<Rightarrow> int \<times> int \<Rightarrow> int \<times> int" where
  "moveLeftLoop ls 0 pos = pos"
| "moveLeftLoop ls (Suc n) pos = moveLeftLoop ls n (moveLeftStep ls pos)"

definition moveLeft :: "TextBufferState \<Rightarrow> int \<Rightarrow> TextBufferState" where
  "moveLeft s count =
     (case moveLeftLoop (lines s) (nat count) (cursorRow s, cursorCol s) of
        (newRow, newCol) \<Rightarrow> s\<lparr>cursorRow := newRow, cursorCol := newCol, preferredCol := None\<rparr>)"

text \<open>The inner loop of \<^verbatim>\<open>vim_move_right\<close> that steps over combining marks.\<close>

function skipCombining :: "helpers \<Rightarrow> jsstring list \<Rightarrow> int \<Rightarrow> int \<Rightarrow> int" where
  "skipCombining H cps lineLength newCol =
     (if newCol < int (length cps) \<and> isCombiningMark H (lineOpt cps newCol) \<and>
         newCol < lineLength - 1
      then skipCombining H cps lineLength (newCol + 1)
      else newCol)"
  by pat_completeness auto
termination
  by (relation "measure (\<lambda>(H, cps, lineLength, newCol). nat (lineLength - newCol))") auto

text \<open>One iteration of the loop of \<^verbatim>\<open>vim_move_right\<close> on \<open>(newRow, newCol)\<close>.\<close>

definition moveRightStep :: "helpers \<Rightarrow> jsstring list \<Rightarrow> int \<times> int \<Rightarrow> int \<times> int" where
  "moveRightStep H ls pos =
     (case pos of (newRow, newCol) \<Rightarrow>
        (let currentLine = lineAt ls newRow;
             lineLength = cpLen currentLine
         in if lineLength = 0 then
              (if newRow < int (length ls) - 1 then (newRow + 1, 0) else (newRow, newCol))
            else if newCol < lineLength - 1 then
              (newRow, skipCombining H (toCodePoints currentLine) lineLength (newCol + 1))
            else if newRow < int (length ls) - 1 then (newRow + 1, 0)
            else (newRow, newCol)))"

fun moveRightLoop :: "helpers \<Rightarrow> jsstring list \<Rightarrow> nat \<Rightarrow> int \<times> int \<Rightarrow> int \<times> int" where
  "moveRightLoop H ls 0 pos = pos"
| "moveRightLoop H ls (Suc n) pos = moveRightLoop H ls n (moveRightStep H ls pos)"

definition moveRight :: "helpers \<Rightarrow> TextBufferState \<Rightarrow> int \<Rightarrow> TextBufferState" where
  "moveRight H s count =
     (case moveRightLoop H (lines s) (nat count) (cursorRow s, cursorCol s) of
        (newRow, newCol) \<Rightarrow> s\<lparr>cursorRow := newRow, cursorCol := newCol, preferredCol := None\<rparr>)"

text \<open>What \<^verbatim>\<open>vim_move_up\<close> and \<^verbatim>\<open>vim_move_down\<close> do once the target row is known.\<close>

definition moveVertical :: "TextBufferState \<Rightarrow> int \<Rightarrow> TextBufferState" where
  "moveVertical s newRow =
     (let targetLineLength = cpLen (lineAt (lines s) newRow);
          newPreferredCol = (case preferredCol s of None \<Rightarrow> cursorCol s | Some p \<Rightarrow> p);
          newCol = min newPreferredCol (if targetLineLength > 0 then targetLineLength - 1 else 0)
      in s\<lparr>cursorRow := newRow, cursorCol := newCol, preferredCol := Some newPreferredCol\<rparr>)"

definition moveUp :: "TextBufferState \<Rightarrow> int \<Rightarrow> TextBufferState" where
  "moveUp s count = moveVertical s (max 0 (cursorRow s - count))"

definition moveDown :: "TextBufferState \<Rightarrow> int \<Rightarrow> TextBufferState" where
  "moveDown s count = moveVertical s (min (int (length (lines s)) - 1) (cursorRow s + count))"

fun wordForwardLoop :: "helpers \<Rightarrow> jsstring list \<Rightarrow> nat \<Rightarrow> int \<times> int \<Rightarrow> int \<times> int" where
  "wordForwardLoop H ls 0 (row, col) = (row, col)"
| "wordForwardLoop H ls (Suc n) (row, col) =
     (case findNextWordAcrossLines H ls row col True of
        Some nextWord \<Rightarrow> wordForwardLoop H ls n nextWord
      | None \<Rightarrow> (row, col))"

definition moveWordForward :: "helpers \<Rightarrow> TextBufferState \<Rightarrow> int \<Rightarrow> TextBufferState" where
  "moveWordForward H s count =
     (case wordForwardLoop H (lines s) (nat count) (cursorRow s, cursorCol s) of
        (row, col) \<Rightarrow> s\<lparr>cursorRow := row, cursorCol := col, preferredCol := None\<rparr>)"

definition moveWordBackward :: "helpers \<Rightarrow> TextBufferState \<Rightarrow> int \<Rightarrow> TextBufferState" where
  "moveWordBackward H s count =
     (case wordBackwardLoop H (lines s) (nat count) (cursorRow s, cursorCol s) of
        (row, col) \<Rightarrow> s\<lparr>cursorRow := row, cursorCol := col, preferredCol := None\<rparr>)"

text \<open>The loop of \<^verbatim>\<open>isAtEndOfBaseWord\<close> that skips combining marks from index \<open>i\<close>.\<close>

function skipMarks :: "helpers \<Rightarrow> jsstring list \<Rightarrow> int \<Rightarrow> int" where
  "skipMarks H cps i =
     (if i < int (length cps) \<and> isCombiningMark H (lineOpt cps i)
      then skipMarks H cps (i + 1) else i)"
  by pat_completeness auto
termination
  by (relation "measure (\<lambda>(H, cps, i). nat (int (length cps) - i))") auto

definition isAtEndOfBaseWord :: "helpers \<Rightarrow> jsstring list \<Rightarrow> int \<Rightarrow> bool" where
  "isAtEndOfBaseWord H lineCodePoints col =
     (if \<not> isWordCharStrict H (lineOpt lineCodePoints col) then False
      else let i = skipMarks H lineCodePoints (col + 1)
           in i \<ge> int (length lineCodePoints) \<or> \<not> isWordCharStrict H (lineOpt lineCodePoints i))"

text \<open>The iterations of \<^verbatim>\<open>vim_move_word_end\<close> after the first.\<close>

fun wordEndLoop :: "helpers \<Rightarrow> jsstring list \<Rightarrow> nat \<Rightarrow> int \<times> int \<Rightarrow> int \<times> int" where
  "wordEndLoop H ls 0 (row, col) = (row, col)"
| "wordEndLoop H ls (Suc n) (row, col) =
     (case findNextWordAcrossLines H ls row col False of
        Some wordEnd \<Rightarrow> wordEndLoop H ls n wordEnd
      | None \<Rightarrow> (row, col))"

definition atEndOfWord :: "helpers \<Rightarrow> jsstring list \<Rightarrow> int \<Rightarrow> bool" where
  "atEndOfWord H lineCodePoints col \<longleftrightarrow>
     col < int (length lineCodePoints) \<and>
     isWordCharStrict H (lineOpt lineCodePoints col) \<and>
     (col + 1 \<ge> int (length lineCodePoints) \<or>
      \<not> isWordCharWithCombining H (lineOpt lineCodePoints (col + 1)) \<or>
      (isWordCharStrict H (lineOpt lineCodePoints col) \<and> isAtEndOfBaseWord H lineCodePoints col))"

text \<open>The first iteration (\<^verbatim>\<open>i === 0\<close>) looks past the word end the cursor is on; when
  that finds nothing it falls through to the plain step.\<close>

definition moveWordEnd :: "helpers \<Rightarrow> TextBufferState \<Rightarrow> int \<Rightarrow> TextBufferState" where
  "moveWordEnd H s count =
     (let ls = lines s; row = cursorRow s; col = cursorCol s;
          special =
            (if atEndOfWord H (toCodePoints (lineAt ls row)) col
             then findNextWordAcrossLines H ls row (col + 1) False else None);
          pos =
            (case nat count of
               0 \<Rightarrow> (row, col)
             | Suc n \<Rightarrow>
                 (case special of
                    Some nextWord \<Rightarrow> wordEndLoop H ls n nextWord
                  | None \<Rightarrow> wordEndLoop H ls (Suc n) (row, col)))
      in s\<lparr>cursorRow := fst pos, cursorCol := snd pos, preferredCol := None\<rparr>)"

section \<open>Character deletion and the entries into insert mode\<close>

text \<open>The ordered pair \<open>(startRow, startCol, endRow, endCol)\<close> that \<^verbatim>\<open>vim_delete_char\<close> and
  \<^verbatim>\<open>vim_yank_selection\<close> compute from the anchor and the cursor.\<close>

definition selectionRange :: "int \<times> int \<Rightarrow> int \<Rightarrow> int \<Rightarrow> int \<times> int \<times> int \<times> int" where
  "selectionRange anchor row col =
     (if fst anchor < row \<or> (fst anchor = row \<and> snd anchor < col)
      then (fst anchor, snd anchor, row, col)
      else (row, col, fst anchor, snd anchor))"

definition deleteChar :: "TextBufferState \<Rightarrow> int \<Rightarrow> TextBufferState" where
  "deleteChar s count =
     (case selectionAnchor s of
        Some anchor \<Rightarrow>
          (case selectionRange anchor (cursorRow s) (cursorCol s) of
             (startRow, startCol, endRow, endCol) \<Rightarrow>
               (replaceRangeInternal (pushUndo s) startRow startCol endRow (endCol + 1) [])
                 \<lparr>selectionAnchor := None\<rparr>)
      | None \<Rightarrow>
          (let lineLength = cpLen (lineAt (lines s) (cursorRow s))
           in if cursorCol s < lineLength then
                (let deleteCount = min count (lineLength - cursorCol s)
                 in replaceRangeInternal (pushUndo s) (cursorRow s) (cursorCol s) (cursorRow s)
                      (cursorCol s + deleteCount) [])
              else s))"

definition appendAtCursor :: "TextBufferState \<Rightarrow> TextBufferState" where
  "appendAtCursor s =
     (let currentLine = lineAt (lines s) (cursorRow s);
          newCol = (if cursorCol s < cpLen currentLine then cursorCol s + 1 else cursorCol s)
      in s\<lparr>cursorCol := newCol, preferredCol := None\<rparr>)"

definition openLineBelow :: "TextBufferState \<Rightarrow> TextBufferState" where
  "openLineBelow s =
     (let endOfLine = cpLen (lineAt (lines s) (cursorRow s))
      in replaceRangeInternal (pushUndo s) (cursorRow s) endOfLine (cursorRow s) endOfLine
           [newline])"

definition openLineAbove :: "TextBufferState \<Rightarrow> TextBufferState" where
  "openLineAbove s =
     (let resultState = replaceRangeInternal (pushUndo s) (cursorRow s) 0 (cursorRow s) 0 [newline]
      in resultState\<lparr>cursorRow := cursorRow s, cursorCol := 0\<rparr>)"

text \<open>The loop of \<^verbatim>\<open>vim_insert_at_line_start\<close> and \<^verbatim>\<open>vim_move_to_first_nonwhitespace\<close>,
  on the code points from \<open>col\<close> on.\<close>

fun skipWhiteSpace :: "jsstring list \<Rightarrow> int \<Rightarrow> int" where
  "skipWhiteSpace [] col = col"
| "skipWhiteSpace (cp # cps) col =
     (if testWhiteSpace cp then skipWhiteSpace cps (col + 1) else col)"

definition firstNonWhiteSpace :: "TextBufferState \<Rightarrow> TextBufferState" where
  "firstNonWhiteSpace s =
     (let col = skipWhiteSpace (toCodePoints (lineAt (lines s) (cursorRow s))) 0
      in s\<lparr>cursorCol := col, preferredCol := None\<rparr>)"

definition moveToLineEnd :: "TextBufferState \<Rightarrow> TextBufferState" where
  "moveToLineEnd s =
     (let lineLength = cpLen (lineAt (lines s) (cursorRow s))
      in s\<lparr>cursorCol := (if lineLength > 0 then lineLength - 1 else 0), preferredCol := None\<rparr>)"

definition moveToLine :: "TextBufferState \<Rightarrow> int \<Rightarrow> TextBufferState" where
  "moveToLine s lineNumber =
     (let targetRow = min (max 0 (lineNumber - 1)) (int (length (lines s)) - 1)
      in s\<lparr>cursorRow := targetRow, cursorCol := 0, preferredCol := None\<rparr>)"

section \<open>Search\<close>

text \<open>The loop over the lines after the cursor line, on the indices still to visit. It
  returns \<open>(foundRow, foundCol)\<close>, \<open>(-1, -1)\<close> when nothing is found; reading
  \<^verbatim>\<open>indexOf\<close> of \<^verbatim>\<open>undefined\<close> throws.\<close>

fun searchSubsequent ::
  "jsstring list \<Rightarrow> jsstring \<Rightarrow> int list \<Rightarrow> js_error + int \<times> int" where
  "searchSubsequent ls query [] = Inr (- 1, - 1)"
| "searchSubsequent ls query (i # rest) =
     (case lineOpt ls i of
        None \<Rightarrow> Inl TypeError
      | Some line \<Rightarrow>
          (let idx = indexOf line query 0
           in if idx \<noteq> - 1 then Inr (i, idx) else searchSubsequent ls query rest))"

text \<open>The wrap-around loop over the lines from the first to the cursor line.\<close>

fun searchWrap ::
  "jsstring list \<Rightarrow> jsstring \<Rightarrow> int \<Rightarrow> int \<Rightarrow> int list \<Rightarrow> js_error + int \<times> int" where
  "searchWrap ls query row col [] = Inr (- 1, - 1)"
| "searchWrap ls query row col (i # rest) =
     (case lineOpt ls i of
        None \<Rightarrow> Inl TypeError
      | Some line \<Rightarrow>
          (let idx = indexOf line query 0
           in if idx \<noteq> - 1 \<and> (i < row \<or> idx < col) then Inr (i, idx)
              else searchWrap ls query row col rest))"

text \<open>The forward search logic, which \<^verbatim>\<open>vim_search\<close> and \<^verbatim>\<open>vim_search_next\<close> each
  spell out; it runs only when the direction is \<^verbatim>\<open>'forward'\<close>.\<close>

definition findMatch ::
  "TextBufferState \<Rightarrow> jsstring \<Rightarrow> direction \<Rightarrow> js_error + int \<times> int" where
  "findMatch s query dir =
     (if dir = forward then
        (let currentLine = lineAt (lines s) (cursorRow s);
             idx = indexOf currentLine query (cursorCol s + 1)
         in if idx \<noteq> - 1 then Inr (cursorRow s, idx)
            else
              (case searchSubsequent (lines s) query
                      [cursorRow s + 1 .. int (length (lines s)) - 1] of
                 Inl e \<Rightarrow> Inl e
               | Inr (foundRow, foundCol) \<Rightarrow>
                   if foundRow = - 1
                   then searchWrap (lines s) query (cursorRow s) (cursorCol s) [0 .. cursorRow s]
                   else Inr (foundRow, foundCol)))
      else Inr (- 1, - 1))"

definition search :: "TextBufferState \<Rightarrow> jsstring \<Rightarrow> direction \<Rightarrow> js_error + TextBufferState" where
  "search s query dir =
     (case findMatch s query dir of
        Inl e \<Rightarrow> Inl e
      | Inr (foundRow, foundCol) \<Rightarrow>
          if foundRow \<noteq> - 1
          then Inr (s\<lparr>cursorRow := foundRow, cursorCol := foundCol, preferredCol := None,
                      lastSearchQuery := Some query\<rparr>)
          else Inr (s\<lparr>lastSearchQuery := Some query\<rparr>))"

definition searchNext :: "TextBufferState \<Rightarrow> direction \<Rightarrow> js_error + TextBufferState" where
  "searchNext s dir =
     (case lastSearchQuery s of
        None \<Rightarrow> Inr s
      | Some query \<Rightarrow>
          if query = [] then Inr s
          else (case findMatch s query dir of
                  Inl e \<Rightarrow> Inl e
                | Inr (foundRow, foundCol) \<Rightarrow>
                    if foundRow \<noteq> - 1
                    then Inr (s\<lparr>cursorRow := foundRow, cursorCol := foundCol,
                                preferredCol := None\<rparr>)
                    else Inr s))"

section \<open>Yank and paste\<close>

text \<open>The text of the lines strictly between the first and the last line of a selection,
  each followed by a line break.\<close>

fun middleLines :: "jsstring list \<Rightarrow> int list \<Rightarrow> jsstring" where
  "middleLines ls [] = []"
| "middleLines ls (i # rest) = lineAt ls i @ [newline] @ middleLines ls rest"

definition yankSelection :: "TextBufferState \<Rightarrow> TextBufferState" where
  "yankSelection s =
     (case selectionAnchor s of
        None \<Rightarrow> s
      | Some anchor \<Rightarrow>
          (case selectionRange anchor (cursorRow s) (cursorCol s) of
             (startRow, startCol, endRow, endCol) \<Rightarrow>
               (let yankedText =
                      (if startRow = endRow
                       then cpSlice (lineAt (lines s) startRow) startCol (Some (endCol + 1))
                       else cpSlice (lineAt (lines s) startRow) startCol None @ [newline] @
                            middleLines (lines s) [startRow + 1 .. endRow - 1] @
                            cpSlice (lineAt (lines s) endRow) 0 (Some (endCol + 1)))
                in s\<lparr>clipboard := Some yankedText\<rparr>)))"

definition paste :: "TextBufferState \<Rightarrow> pasteDirection \<Rightarrow> TextBufferState" where
  "paste s dir =
     (case clipboard s of
        None \<Rightarrow> s
      | Some clip \<Rightarrow>
          if clip = [] then s
          else
            (let nextState = pushUndo s
             in if dir = after then
                  (let currentLine = lineAt (lines s) (cursorRow s)
                   in if includesNewline clip then
                        (if endsWithNewline clip then
                           (let endOfLine = cpLen currentLine
                            in replaceRangeInternal nextState (cursorRow s) endOfLine (cursorRow s)
                                 endOfLine ([newline] @ butlast clip))
                         else
                           (let insertCol = min (cursorCol s + 1) (cpLen currentLine)
                            in replaceRangeInternal nextState (cursorRow s) insertCol (cursorRow s)
                                 insertCol clip))
                      else
                        (let insertCol = min (cursorCol s + 1) (cpLen currentLine)
                         in replaceRangeInternal nextState (cursorRow s) insertCol (cursorRow s)
                              insertCol clip))
                else
                  (if includesNewline clip \<and> endsWithNewline clip
                   then replaceRangeInternal nextState (cursorRow s) 0 (cursorRow s) 0 clip
                   else replaceRangeInternal nextState (cursorRow s) (cursorCol s) (cursorRow s)
                          (cursorCol s) clip)))"

section \<open>The dispatcher\<close>

fun handleVimAction :: "helpers \<Rightarrow> TextBufferState \<Rightarrow> VimAction \<Rightarrow> js_error + TextBufferState" where
  "handleVimAction H s (vim_delete_word_forward count) = Inr (deleteWordForward H s count)"
| "handleVimAction H s (vim_change_word_forward count) = Inr (deleteWordForward H s count)"
| "handleVimAction H s (vim_delete_word_backward count) = Inr (deleteWordBackward H s count)"
| "handleVimAction H s (vim_change_word_backward count) = Inr (deleteWordBackward H s count)"
| "handleVimAction H s (vim_delete_word_end count) = Inr (deleteWordEnd H s count)"
| "handleVimAction H s (vim_change_word_end count) = Inr (deleteWordEnd H s count)"
| "handleVimAction H s (vim_delete_line count) = Inr (deleteLine s count)"
| "handleVimAction H s (vim_change_line count) = Inr (changeLine H s count)"
| "handleVimAction H s vim_delete_to_end_of_line = Inr (deleteToEndOfLine s)"
| "handleVimAction H s vim_change_to_end_of_line = Inr (deleteToEndOfLine s)"
| "handleVimAction H s (vim_change_movement m count) = Inr (changeMovement H s m count)"
| "handleVimAction H s (vim_move_left count) = Inr (moveLeft s count)"
| "handleVimAction H s (vim_move_right count) = Inr (moveRight H s count)"
| "handleVimAction H s (vim_move_up count) = Inr (moveUp s count)"
| "handleVimAction H s (vim_move_down count) = Inr (moveDown s count)"
| "handleVimAction H s (vim_move_word_forward count) = Inr (moveWordForward H s count)"
| "handleVimAction H s (vim_move_word_backward count) = Inr (moveWordBackward H s count)"
| "handleVimAction H s (vim_move_word_end count) = Inr (moveWordEnd H s count)"
| "handleVimAction H s (vim_delete_char count) = Inr (deleteChar s count)"
| "handleVimAction H s vim_insert_at_cursor = Inr s"
| "handleVimAction H s vim_append_at_cursor = Inr (appendAtCursor s)"
| "handleVimAction H s vim_open_line_below = Inr (openLineBelow s)"
| "handleVimAction H s vim_open_line_above = Inr (openLineAbove s)"
| "handleVimAction H s vim_append_at_line_end =
     Inr (s\<lparr>cursorCol := cpLen (lineAt (lines s) (cursorRow s)), preferredCol := None\<rparr>)"
| "handleVimAction H s vim_insert_at_line_start = Inr (firstNonWhiteSpace s)"
| "handleVimAction H s vim_move_to_line_start = Inr (s\<lparr>cursorCol := 0, preferredCol := None\<rparr>)"
| "handleVimAction H s vim_move_to_line_end = Inr (moveToLineEnd s)"
| "handleVimAction H s vim_move_to_first_nonwhitespace = Inr (firstNonWhiteSpace s)"
| "handleVimAction H s vim_move_to_first_line =
     Inr (s\<lparr>cursorRow := 0, cursorCol := 0, preferredCol := None\<rparr>)"
| "handleVimAction H s vim_move_to_last_line =
     Inr (s\<lparr>cursorRow := int (length (lines s)) - 1, cursorCol := 0, preferredCol := None\<rparr>)"
| "handleVimAction H s (vim_move_to_line lineNumber) = Inr (moveToLine s lineNumber)"
| "handleVimAction H s vim_escape_insert_mode =
     Inr (s\<lparr>cursorCol := (if cursorCol s > 0 then cursorCol s - 1 else 0), preferredCol := None\<rparr>)"
| "handleVimAction H s vim_set_selection_anchor =
     Inr (s\<lparr>selectionAnchor := Some (cursorRow s, cursorCol s)\<rparr>)"
| "handleVimAction H s vim_clear_selection = Inr (s\<lparr>selectionAnchor := None\<rparr>)"
| "handleVimAction H s (vim_search query dir) = search s query dir"
| "handleVimAction H s (vim_search_next dir) = searchNext s dir"
| "handleVimAction H s (vim_yank text) = Inr (s\<lparr>clipboard := Some text\<rparr>)"
| "handleVimAction H s vim_yank_selection = Inr (yankSelection s)"
| "handleVimAction H s (vim_paste dir) = Inr (paste s dir)"

text \<open>A set of helpers for buffers in which the scanner finds no word: every scan answers
  "none". It stands in where a closed example needs some value for the parameter.\<close>

definition noWords :: helpers where
  "noWords =
     \<lparr>isWordCharStrict = (\<lambda>cp. False),
      isWordCharWithCombining = (\<lambda>cp. False),
      isCombiningMark = (\<lambda>cp. False),
      findNextWordAcrossLines = (\<lambda>ls row col searchForWordStart. None),
      findPrevWordAcrossLines = (\<lambda>ls row col. None),
      findWordEndInLine = (\<lambda>line col. None),
      getLineRangeOffsets = (\<lambda>row lineCount ls. (0, 0)),
      getPositionFromOffsets = (\<lambda>startOffset endOffset ls. (0, 0, 0, 0))\<rparr>"

text \<open>A state with the given lines and cursor, and nothing else set.\<close>

definition mkState :: "jsstring list \<Rightarrow> int \<Rightarrow> int \<Rightarrow> TextBufferState" where
  "mkState ls row col =
     \<lparr>lines = ls, cursorRow = row, cursorCol = col, preferredCol = None,
      selectionAnchor = None, clipboard = None, lastSearchQuery = None,
      undoStack = [], redoStack = []\<rparr>"

section \<open>The scan order of a forward search, as the specification words it\<close>

text \<open>The query occurs in the line at code point column \<open>c\<close>: the code points of the
  line from \<open>c\<close> on start with the code points of the query.\<close>

definition cpOccursAt :: "jsstring \<Rightarrow> jsstring \<Rightarrow> nat \<Rightarrow> bool" where
  "cpOccursAt line query c \<longleftrightarrow>
     take (length (toCodePoints query)) (drop c (toCodePoints line)) = toCodePoints query"

text \<open>The positions a forward search visits from the cursor \<open>(row, col)\<close>: the cursor line
  from column \<open>col + 1\<close>, each later line, then from the first line up to but not
  including the cursor position. A column is a code point index into the line; the
  column just behind the last character belongs to the line.\<close>

definition scanOrder :: "jsstring list \<Rightarrow> nat \<Rightarrow> nat \<Rightarrow> (nat \<times> nat) list" where
  "scanOrder ls row col =
     map (Pair row) [col + 1 ..< Suc (length (toCodePoints (ls ! row)))] @
     concat (map (\<lambda>r. map (Pair r) [0 ..< Suc (length (toCodePoints (ls ! r)))])
               [row + 1 ..< length ls]) @
     concat (map (\<lambda>r. map (Pair r) [0 ..< Suc (length (toCodePoints (ls ! r)))]) [0 ..< row]) @
     map (Pair row) [0 ..< col]"

definition firstMatch :: "jsstring list \<Rightarrow> jsstring \<Rightarrow> nat \<Rightarrow> nat \<Rightarrow> (nat \<times> nat) option" where
  "firstMatch ls query row col =
     find (\<lambda>(r, c). cpOccursAt (ls ! r) query c) (scanOrder ls row col)"

text \<open>A line without a surrogate pair: each of its code units is a code point, so that
  code point columns and offsets into the string are the same numbers.\<close>

definition noSurrogatePairs :: "jsstring \<Rightarrow> bool" where
  "noSurrogatePairs line \<longleftrightarrow> length (toCodePoints line) = length line"

section \<open>Facts about the utilities\<close>

lemma concat_toCodePoints: "concat (toCodePoints s) = s"
  by (induction s rule: toCodePoints.induct) auto

lemma toCodePoints_Nil_iff: "toCodePoints s = [] \<longleftrightarrow> s = []"
  by (induction s rule: toCodePoints.induct) auto

lemma cpLen_zero_iff: "cpLen s = 0 \<longleftrightarrow> s = []"
  by (simp add: cpLen_def toCodePoints_Nil_iff)

lemma cpSlice_whole: "cpSlice s 0 (Some (cpLen s)) = s"
  by (simp add: cpSlice_def cpLen_def concat_toCodePoints)

lemma cpSlice_from_end: "cpSlice s (cpLen s) None = []"
  by (simp add: cpSlice_def cpLen_def)

lemma set_toCodePoints: "cp \<in> set (toCodePoints s) \<Longrightarrow> set cp \<subseteq> set s"
  by (induction s rule: toCodePoints.induct) (auto split: if_splits)

lemma set_cpSlice: "set (cpSlice s a b) \<subseteq> set s"
proof -
  have "set (concat (take n (drop m (toCodePoints s)))) \<subseteq> set s" for n m
    using set_toCodePoints [of _ s]
    by (auto dest!: in_set_takeD in_set_dropD)
  then show ?thesis by (simp add: cpSlice_def Let_def)
qed

lemma splitLines_not_Nil: "splitLines x \<noteq> []"
  by (induction x) (auto split: list.splits)

lemma splitLines_no_newline: "newline \<notin> set x \<Longrightarrow> splitLines x = [x]"
  by (induction x) auto

lemma splitLines_append_newline: "splitLines (a @ newline # b) = splitLines a @ splitLines b"
  by (induction a) (auto split: list.splits simp: splitLines_not_Nil)

lemma lines_replaceRangeInternal:
  "lines (replaceRangeInternal s sr sc er ec t) =
     take (nat sr) (lines s) @
     splitLines (cpSlice (lineAt (lines s) sr) 0 (Some sc) @ t @ cpSlice (lineAt (lines s) er) ec None) @
     drop (nat er + 1) (lines s)"
  by (simp add: replaceRangeInternal_def Let_def)

lemma lines_pushUndo: "lines (pushUndo s) = lines s"
  by (simp add: pushUndo_def)

lemma endsWith_includes: "endsWithNewline c \<Longrightarrow> includesNewline c"
  using last_in_set [of c] by (auto simp: endsWithNewline_def includesNewline_def)

lemma endsWith_butlast: "endsWithNewline c \<Longrightarrow> c = butlast c @ [newline]"
  by (auto simp: endsWithNewline_def) (metis append_butlast_last_id)

lemma take_Suc_lineAt:
  "0 \<le> r \<Longrightarrow> r < int (length ls) \<Longrightarrow> take (nat r) ls @ [lineAt ls r] = take (Suc (nat r)) ls"
  by (simp add: lineAt_def take_Suc_conv_app_nth)

lemma lineAt_drop:
  "0 \<le> r \<Longrightarrow> r < int (length ls) \<Longrightarrow> lineAt ls r # drop (Suc (nat r)) ls = drop (nat r) ls"
  by (simp add: lineAt_def Cons_nth_drop_Suc)

section \<open>Search direction\<close>

text \<open>
  C4, as the code has it. The forward scan is guarded by the test
  \<^verbatim>\<open>direction === 'forward'\<close>, so a backward search scans nothing: \<^verbatim>\<open>vim_search\<close>
  with direction backward only records the query as \<open>lastSearchQuery\<close> and leaves
  the cursor (and \<open>preferredCol\<close>) alone, and \<^verbatim>\<open>vim_search_next\<close> with direction
  backward returns the state as it is.
\<close>

theorem backward_search_is_inert:
  "handleVimAction H s (vim_search query backward) = Inr (s\<lparr>lastSearchQuery := Some query\<rparr>) \<and>
   handleVimAction H s (vim_search_next backward) = Inr s"
  by (simp add: search_def searchNext_def findMatch_def split: option.splits)

theorem backward_search_is_inert_witness:
  "handleVimAction noWords (mkState [js ''ab''] 0 0) (vim_search (js ''b'') backward) =
     Inr ((mkState [js ''ab''] 0 0)\<lparr>lastSearchQuery := Some (js ''b'')\<rparr>)"
  using backward_search_is_inert [of noWords "mkState [js ''ab''] 0 0" "js ''b''"] by simp

text \<open>
  C4 as stated fails: on the line \<open>ab\<close> with the cursor on \<open>a\<close>, searching \<open>b\<close> forward
  moves the cursor to column 1, searching it backward does not move it.
\<close>

theorem backward_search_counterexample:
  "handleVimAction noWords (mkState [js ''ab''] 0 0) (vim_search (js ''b'') backward) \<noteq>
   handleVimAction noWords (mkState [js ''ab''] 0 0) (vim_search (js ''b'') forward)"
  by (simp add: search_def findMatch_def mkState_def js_def lineAt_def indexOf_def occursAt_def)

section \<open>Moving left across a line start\<close>

text \<open>
  C10. With the cursor in column 0 of a row other than the first, \<^verbatim>\<open>vim_move_left\<close> with
  count 1 puts the cursor on the previous row, on its last character (column
  \<open>length - 1\<close>, the length counted in code points) or in column 0 when that line is
  empty (of length 0); the lines, the clipboard and the undo stack stay as they are.
\<close>

theorem move_left_wraps:
  assumes "cursorCol s = 0" and "0 < cursorRow s" and "cursorRow s < int (length (lines s))"
  shows "\<exists>s'. handleVimAction H s (vim_move_left 1) = Inr s' \<and>
           cursorRow s' = cursorRow s - 1 \<and>
           cursorCol s' = (if cpLen (lines s ! nat (cursorRow s - 1)) = 0 then 0
                           else cpLen (lines s ! nat (cursorRow s - 1)) - 1) \<and>
           lines s' = lines s \<and> clipboard s' = clipboard s \<and> undoStack s' = undoStack s"
  using assms
  by (simp add: moveLeft_def moveLeftStep_def lineAt_def Let_def)

theorem move_left_wraps_witness:
  "handleVimAction noWords (mkState [js ''ab'', js ''cd''] 1 0) (vim_move_left 1) =
     Inr ((mkState [js ''ab'', js ''cd''] 0 1))"
  using move_left_wraps [of "mkState [js ''ab'', js ''cd''] 1 0" noWords]
  by (simp add: mkState_def js_def cpLen_def lineAt_def moveLeft_def moveLeftStep_def
      isHighSurrogate_def isLowSurrogate_def)

section \<open>Paste\<close>

text \<open>
  C7. With a non-empty clipboard, the cursor on a line of the buffer and no line break
  inside that line: a payload that ends with a line break is pasted as whole lines,
  below the current line by paste-after and above it by paste-before (the payload's
  lines are the payload without its final line break, split at line breaks); any other
  payload is inserted into the current line, by paste-after at code point column
  \<open>min (cursorCol + 1) lineLength\<close> and by paste-before at \<open>cursorCol\<close>. With the clipboard
  \<open>xyz\<close> plus line break, the one line \<open>abc\<close> and the cursor at (0,0), paste-after gives
  the lines \<open>abc\<close>, \<open>xyz\<close>.
\<close>

theorem paste_linewise_and_characterwise:
  assumes clip: "clipboard s = Some clip" "clip \<noteq> []"
    and row: "0 \<le> cursorRow s" "cursorRow s < int (length (lines s))"
    and nl: "newline \<notin> set (lineAt (lines s) (cursorRow s))"
  shows
    "(endsWithNewline clip \<longrightarrow>
        (\<exists>s'. handleVimAction H s (vim_paste after) = Inr s' \<and>
              lines s' = take (nat (cursorRow s) + 1) (lines s) @ splitLines (butlast clip) @
                         drop (nat (cursorRow s) + 1) (lines s)) \<and>
        (\<exists>s'. handleVimAction H s (vim_paste before) = Inr s' \<and>
              lines s' = take (nat (cursorRow s)) (lines s) @ splitLines (butlast clip) @
                         drop (nat (cursorRow s)) (lines s))) \<and>
     (\<not> endsWithNewline clip \<longrightarrow>
        (\<exists>s'. handleVimAction H s (vim_paste after) = Inr s' \<and>
              lines s' =
                (let line = lineAt (lines s) (cursorRow s);
                     insertCol = min (cursorCol s + 1) (cpLen line)
                 in take (nat (cursorRow s)) (lines s) @
                    splitLines (cpSlice line 0 (Some insertCol) @ clip @ cpSlice line insertCol None) @
                    drop (nat (cursorRow s) + 1) (lines s))) \<and>
        (\<exists>s'. handleVimAction H s (vim_paste before) = Inr s' \<and>
              lines s' =
                (let line = lineAt (lines s) (cursorRow s)
                 in take (nat (cursorRow s)) (lines s) @
                    splitLines (cpSlice line 0 (Some (cursorCol s)) @ clip @
                                cpSlice line (cursorCol s) None) @
                    drop (nat (cursorRow s) + 1) (lines s)))) \<and>
     (\<exists>s'. handleVimAction H ((mkState [js ''abc''] 0 0)\<lparr>clipboard := Some (js ''xyz'' @ [newline])\<rparr>)
              (vim_paste after) = Inr s' \<and>
           lines s' = [js ''abc'', js ''xyz''])"
proof (intro conjI impI)
  let ?line = "lineAt (lines s) (cursorRow s)"
  assume e: "endsWithNewline clip"
  have "lines (paste s after) =
          take (nat (cursorRow s)) (lines s) @ splitLines (?line @ newline # butlast clip) @
          drop (nat (cursorRow s) + 1) (lines s)"
    using clip e endsWith_includes [OF e]
    by (simp add: paste_def Let_def lines_replaceRangeInternal lines_pushUndo cpSlice_whole
        cpSlice_from_end)
  also have "\<dots> = (take (nat (cursorRow s)) (lines s) @ [?line]) @ splitLines (butlast clip) @
                  drop (nat (cursorRow s) + 1) (lines s)"
    using nl by (simp add: splitLines_append_newline splitLines_no_newline)
  finally show "\<exists>s'. handleVimAction H s (vim_paste after) = Inr s' \<and>
              lines s' = take (nat (cursorRow s) + 1) (lines s) @ splitLines (butlast clip) @
                         drop (nat (cursorRow s) + 1) (lines s)"
    using row by (simp add: take_Suc_lineAt)
  have "lines (paste s before) =
          take (nat (cursorRow s)) (lines s) @ splitLines ((butlast clip @ [newline]) @ ?line) @
          drop (nat (cursorRow s) + 1) (lines s)"
    using clip e endsWith_includes [OF e] endsWith_butlast [OF e]
    by (simp add: paste_def Let_def lines_replaceRangeInternal lines_pushUndo cpSlice_def
        concat_toCodePoints)
  also have "\<dots> = take (nat (cursorRow s)) (lines s) @ splitLines (butlast clip) @
                  (?line # drop (nat (cursorRow s) + 1) (lines s))"
    using nl by (simp add: splitLines_append_newline splitLines_no_newline)
  finally show "\<exists>s'. handleVimAction H s (vim_paste before) = Inr s' \<and>
              lines s' = take (nat (cursorRow s)) (lines s) @ splitLines (butlast clip) @
                         drop (nat (cursorRow s)) (lines s)"
    using row by (simp add: lineAt_drop)
next
  assume "\<not> endsWithNewline clip"
  then show "\<exists>s'. handleVimAction H s (vim_paste after) = Inr s' \<and>
              lines s' =
                (let line = lineAt (lines s) (cursorRow s);
                     insertCol = min (cursorCol s + 1) (cpLen line)
                 in take (nat (cursorRow s)) (lines s) @
                    splitLines (cpSlice line 0 (Some insertCol) @ clip @ cpSlice line insertCol None) @
                    drop (nat (cursorRow s) + 1) (lines s))"
    using clip by (simp add: paste_def Let_def lines_replaceRangeInternal lines_pushUndo)
next
  assume "\<not> endsWithNewline clip"
  then show "\<exists>s'. handleVimAction H s (vim_paste before) = Inr s' \<and>
              lines s' =
                (let line = lineAt (lines s) (cursorRow s)
                 in take (nat (cursorRow s)) (lines s) @
                    splitLines (cpSlice line 0 (Some (cursorCol s)) @ clip @
                                cpSlice line (cursorCol s) None) @
                    drop (nat (cursorRow s) + 1) (lines s))"
    using clip by (simp add: paste_def Let_def lines_replaceRangeInternal lines_pushUndo)
next
  show "\<exists>s'. handleVimAction H ((mkState [js ''abc''] 0 0)\<lparr>clipboard := Some (js ''xyz'' @ [newline])\<rparr>)
              (vim_paste after) = Inr s' \<and>
           lines s' = [js ''abc'', js ''xyz'']"
    by (simp add: paste_def mkState_def js_def newline_def includesNewline_def endsWithNewline_def
        lines_replaceRangeInternal lines_pushUndo lineAt_def cpSlice_def cpLen_def
        isHighSurrogate_def isLowSurrogate_def)
qed

theorem paste_linewise_and_characterwise_witness:
  "lines (projr (handleVimAction noWords
       ((mkState [js ''ab'', js ''cd''] 0 1)\<lparr>clipboard := Some (js ''x'' @ [newline])\<rparr>)
       (vim_paste before))) =
     [js ''x'', js ''ab'', js ''cd'']"
  using paste_linewise_and_characterwise
    [of "(mkState [js ''ab'', js ''cd''] 0 1)\<lparr>clipboard := Some (js ''x'' @ [newline])\<rparr>"
      "js ''x'' @ [newline]" noWords]
  by (simp add: mkState_def js_def newline_def lineAt_def endsWithNewline_def)

section \<open>Facts about the selection, the primitives and the dispatcher\<close>

lemma middleLines_concat:
  "middleLines ls is = concat (map (\<lambda>i. lineAt ls i @ [newline]) is)"
  by (induction "is") auto

lemma selectionRange_ordered:
  "selectionRange (ar, ac) row col = (sr, sc, er, ec) \<Longrightarrow>
     (sr < er \<or> (sr = er \<and> sc \<le> ec)) \<and> {(sr, sc), (er, ec)} = {(ar, ac), (row, col)}"
  by (auto simp: selectionRange_def split: if_splits)


lemma pushUndo_fields:
  "cursorRow (pushUndo s) = cursorRow s"
  "cursorCol (pushUndo s) = cursorCol s"
  "preferredCol (pushUndo s) = preferredCol s"
  "undoStack (pushUndo s) = undoStack s @ [snapshot s]"
  by (simp_all add: pushUndo_def)

lemma replaceRangeInternal_fields:
  "undoStack (replaceRangeInternal t sr sc er ec x) = undoStack t"
  "preferredCol (replaceRangeInternal t sr sc er ec x) = None"
  "lines (replaceRangeInternal t sr sc er ec x) \<noteq> []"
  by (simp_all add: replaceRangeInternal_def Let_def splitLines_not_Nil)

lemma replaceLineRange_fields:
  "undoStack (replaceLineRange H t row n) = undoStack t"
  "preferredCol (replaceLineRange H t row n) = None"
  "lines (replaceLineRange H t row n) \<noteq> []"
  by (simp_all add: replaceLineRange_def replaceRangeInternal_fields split: prod.splits)

lemma splice_not_Nil:
  assumes "xs \<noteq> []" and "dc < int (length xs)"
  shows "splice xs start dc \<noteq> []"
proof -
  define st where "st = (if start < 0 then max (int (length xs) + start) 0
                         else min start (int (length xs)))"
  define d where "d = min (max dc 0) (int (length xs) - st)"
  have st: "0 \<le> st" "st \<le> int (length xs)"
    by (auto simp: st_def)
  have pos: "0 < int (length xs)"
    using assms by simp
  have d: "0 \<le> d" "d < int (length xs)"
    using assms(2) st pos unfolding d_def by linarith+
  have eq: "splice xs start dc = take (nat st) xs @ drop (nat (st + d)) xs"
    by (simp add: splice_def Let_def st_def d_def)
  show ?thesis
  proof (cases "st = 0")
    case True
    then have "drop (nat (st + d)) xs \<noteq> []" using d by simp
    then show ?thesis by (simp add: eq)
  next
    case False
    then have "take (nat st) xs \<noteq> []" using st assms by simp
    then show ?thesis by (simp add: eq)
  qed
qed

lemmas body_defs =
  deleteWordForward_def deleteWordBackward_def deleteWordEnd_def deleteLine_def changeLine_def
  deleteToEndOfLine_def moveLeft_def moveRight_def moveUp_def moveDown_def moveVertical_def
  moveWordForward_def moveWordBackward_def moveWordEnd_def deleteChar_def appendAtCursor_def
  openLineBelow_def openLineAbove_def firstNonWhiteSpace_def moveToLineEnd_def moveToLine_def
  search_def searchNext_def yankSelection_def paste_def

lemma changeMovement_lines: "lines s \<noteq> [] \<Longrightarrow> lines (changeMovement H s m n) \<noteq> []"
  by (cases m) (simp_all add: Let_def replaceRangeInternal_fields replaceLineRange_fields)

lemma deleteLine_lines: "lines s \<noteq> [] \<Longrightarrow> lines (deleteLine s n) \<noteq> []"
proof -
  assume ne: "lines s \<noteq> []"
  have "splice (lines s) (cursorRow s) (min n (int (length (lines s)) - cursorRow s)) \<noteq> []"
    if "\<not> int (length (lines s)) \<le> min n (int (length (lines s)) - cursorRow s)"
    using that ne by (intro splice_not_Nil) auto
  then show ?thesis
    using ne by (auto simp: deleteLine_def Let_def lines_pushUndo)
qed

lemma handleVimAction_lines:
  "lines s \<noteq> [] \<Longrightarrow> handleVimAction H s c = Inr s' \<Longrightarrow> lines s' \<noteq> []"
  by (cases c)
     (auto simp: body_defs Let_def replaceRangeInternal_fields replaceLineRange_fields
        changeMovement_lines deleteLine_lines
        simp del: deleteLine_def
        split: prod.splits option.splits sum.splits if_splits)


lemma searchSubsequent_returns:
  "\<forall>i\<in>set is. 0 \<le> i \<and> i < int (length ls) \<Longrightarrow> \<exists>p. searchSubsequent ls q is = Inr p"
  by (induction "is") (auto simp: lineOpt_def Let_def)

lemma searchWrap_returns:
  "\<forall>i\<in>set is. 0 \<le> i \<and> i < int (length ls) \<Longrightarrow> \<exists>p. searchWrap ls q row col is = Inr p"
  by (induction "is") (auto simp: lineOpt_def Let_def)

lemma findMatch_returns:
  assumes "0 \<le> cursorRow s" and "cursorRow s < int (length (lines s))"
  shows "\<exists>p. findMatch s q d = Inr p"
proof -
  obtain p where p: "searchSubsequent (lines s) q [cursorRow s + 1 .. int (length (lines s)) - 1] = Inr p"
    using searchSubsequent_returns [of "[cursorRow s + 1 .. int (length (lines s)) - 1]" "lines s" q]
      assms by auto
  obtain w where w: "searchWrap (lines s) q (cursorRow s) (cursorCol s) [0 .. cursorRow s] = Inr w"
    using searchWrap_returns [of "[0 .. cursorRow s]" "lines s" q "cursorRow s" "cursorCol s"]
      assms by auto
  show ?thesis
    by (cases p) (simp add: findMatch_def Let_def p w)
qed

lemma handleVimAction_returns:
  assumes "0 \<le> cursorRow s" and "cursorRow s < int (length (lines s))"
  shows "\<exists>s'. handleVimAction H s c = Inr s'"
proof (cases c)
  case (vim_search q d)
  obtain p where "findMatch s q d = Inr p" using findMatch_returns [OF assms] by blast
  then show ?thesis using vim_search by (cases p) (simp add: search_def)
next
  case (vim_search_next d)
  show ?thesis
  proof (cases "lastSearchQuery s")
    case None
    then show ?thesis using vim_search_next by (simp add: searchNext_def)
  next
    case (Some q)
    obtain p where "findMatch s q d = Inr p" using findMatch_returns [OF assms] by blast
    then show ?thesis using vim_search_next Some by (cases p) (simp add: searchNext_def)
  qed
qed simp_all

lemma changeMovement_undoStack:
  "(lines (changeMovement H s m n) = lines s \<and> undoStack (changeMovement H s m n) = undoStack s) \<or>
   undoStack (changeMovement H s m n) = undoStack s @ [snapshot s]"
  by (cases m)
     (simp_all add: Let_def replaceRangeInternal_fields replaceLineRange_fields pushUndo_fields)

lemma handleVimAction_undoStack:
  "handleVimAction H s c = Inr s' \<Longrightarrow>
     (lines s' = lines s \<and> undoStack s' = undoStack s) \<or> undoStack s' = undoStack s @ [snapshot s]"
  using changeMovement_undoStack [of H s]
  by (cases c)
     (auto simp: body_defs Let_def replaceRangeInternal_fields replaceLineRange_fields
        pushUndo_fields
        split: prod.splits option.splits sum.splits if_splits)

lemma undo_after_snapshot:
  "undoStack s' = undoStack s @ [snapshot s] \<Longrightarrow>
     lines (undo s') = lines s \<and> cursorRow (undo s') = cursorRow s \<and> cursorCol (undo s') = cursorCol s"
  by (simp add: undo_def snapshot_def Let_def)



section \<open>Facts about the search loops\<close>

lemma find_append_cases:
  "find P (xs @ ys) = (case find P xs of None \<Rightarrow> find P ys | Some x \<Rightarrow> Some x)"
  by (induction xs) auto

lemma find_map_Pair:
  "find (\<lambda>(r, c). Q r c) (map (Pair r) xs) = map_option (Pair r) (find (Q r) xs)"
  by (induction xs) auto

lemma find_Some_set: "find P xs = Some x \<Longrightarrow> x \<in> set xs \<and> P x"
  by (induction xs) (auto split: if_splits)

lemma occursAt_bound: "q \<noteq> [] \<Longrightarrow> occursAt s q k \<Longrightarrow> k < length s"
  by (cases "k < length s") (auto simp: occursAt_def)

lemma find_occursAt_beyond:
  "q \<noteq> [] \<Longrightarrow> length s \<le> a \<Longrightarrow> find (occursAt s q) [a ..< b] = None"
  using occursAt_bound [of q s] by (fastforce simp: find_None_iff)

lemma indexOf_nonempty:
  assumes "q \<noteq> []" and "0 \<le> pos"
  shows "indexOf s q pos =
           (case find (occursAt s q) [nat pos ..< Suc (length s)] of
              Some k \<Rightarrow> int k | None \<Rightarrow> - 1)"
proof (cases "nat pos \<le> length s")
  case True
  then have "pos \<le> int (length s)"
    using assms(2) by linarith
  then have "min (max pos 0) (int (length s)) = pos"
    using assms(2) by simp
  then show ?thesis by (simp add: indexOf_def Let_def del: upt_Suc)
next
  case False
  then have "int (length s) \<le> pos"
    by linarith
  then have "min (max pos 0) (int (length s)) = int (length s)"
    by simp
  moreover have "\<not> occursAt s q (length s)"
    using occursAt_bound [OF assms(1), of s "length s"] by auto
  moreover have "[nat pos ..< Suc (length s)] = []"
    using False by simp
  moreover have "[length s ..< Suc (length s)] = [length s]"
    by simp
  ultimately show ?thesis by (simp add: indexOf_def Let_def del: upt_Suc)
qed

lemma find_before_col:
  assumes "q \<noteq> []"
  shows "(case find (occursAt s q) [0 ..< Suc (length s)] of
            None \<Rightarrow> None | Some k \<Rightarrow> if k < col then Some k else None) =
         find (occursAt s q) [0 ..< col]"
proof (cases "col \<le> Suc (length s)")
  case True
  then have split: "[0 ..< Suc (length s)] = [0 ..< col] @ [col ..< Suc (length s)]"
    by (metis le0 upt_add_eq_append le_iff_add)
  show ?thesis
  proof (cases "find (occursAt s q) [0 ..< col]")
    case None
    show ?thesis
    proof (cases "find (occursAt s q) [col ..< Suc (length s)]")
      case None
      with \<open>find (occursAt s q) [0 ..< col] = None\<close> show ?thesis
        by (simp only: split find_append_cases) simp
    next
      case (Some k)
      then have "col \<le> k" using find_Some_set [OF Some] by (simp del: upt_Suc)
      with Some \<open>find (occursAt s q) [0 ..< col] = None\<close> show ?thesis
        by (simp only: split find_append_cases) simp
    qed
  next
    case (Some k)
    then have "k < col" using find_Some_set [OF Some] by simp
    with Some show ?thesis
      by (simp only: split find_append_cases) simp
  qed
next
  case False
  then have split: "[0 ..< col] = [0 ..< Suc (length s)] @ [Suc (length s) ..< col]"
    by (metis le0 upt_add_eq_append le_iff_add nat_le_linear)
  have none: "find (occursAt s q) [Suc (length s) ..< col] = None"
    using assms by (intro find_occursAt_beyond) auto
  show ?thesis
  proof (cases "find (occursAt s q) [0 ..< Suc (length s)]")
    case None
    then show ?thesis by (simp only: split find_append_cases none) simp
  next
    case (Some k)
    then have "k < col" using find_Some_set [OF Some] False by (simp del: upt_Suc)
    with Some show ?thesis by (simp only: split find_append_cases) simp
  qed
qed

lemma upto_as_upt: "[int a .. int b - 1] = map int [a ..< b]"
proof (induction b)
  case 0
  then show ?case by simp
next
  case (Suc b)
  show ?case
  proof (cases "a \<le> b")
    case True
    then have "[int a .. int (Suc b) - 1] = [int a .. int b - 1] @ [int b]"
      using upto_rec2 [of "int a" "int b"] by simp
    with Suc True show ?thesis by simp
  next
    case False
    then show ?thesis by simp
  qed
qed

lemma searchSubsequent_find:
  assumes "q \<noteq> []" and "\<forall>r\<in>set rs. r < length ls"
  shows "searchSubsequent ls q (map int rs) =
           Inr (case find (\<lambda>(r, c). occursAt (ls ! r) q c)
                       (concat (map (\<lambda>r. map (Pair r) [0 ..< Suc (length (ls ! r))]) rs)) of
                  Some (r, c) \<Rightarrow> (int r, int c)
                | None \<Rightarrow> (- 1, - 1))"
  using assms(2)
proof (induction rs)
  case Nil
  then show ?case by simp
next
  case (Cons r rs)
  then have r: "lineOpt ls (int r) = Some (ls ! r)"
    by (simp add: lineOpt_def)
  show ?case
  proof (cases "find (occursAt (ls ! r) q) [0 ..< Suc (length (ls ! r))]")
    case None
    with Cons r show ?thesis
      by (simp add: indexOf_nonempty [OF assms(1)] find_append_cases find_map_Pair Let_def
          del: upt_Suc)
  next
    case (Some k)
    with Cons r show ?thesis
      by (simp add: indexOf_nonempty [OF assms(1)] find_append_cases find_map_Pair Let_def
          del: upt_Suc)
  qed
qed

lemma searchWrap_find:
  assumes "q \<noteq> []" and "\<forall>r\<in>set rs. r < row" and "row < length ls"
  shows "searchWrap ls q (int row) (int col) (map int rs @ [int row]) =
           Inr (case find (\<lambda>(r, c). occursAt (ls ! r) q c)
                       (concat (map (\<lambda>r. map (Pair r) [0 ..< Suc (length (ls ! r))]) rs) @
                        map (Pair row) [0 ..< col]) of
                  Some (r, c) \<Rightarrow> (int r, int c)
                | None \<Rightarrow> (- 1, - 1))"
  using assms(2)
proof (induction rs)
  case Nil
  have r: "lineOpt ls (int row) = Some (ls ! row)"
    using assms(3) by (simp add: lineOpt_def)
  show ?case
  proof (cases "find (occursAt (ls ! row) q) [0 ..< Suc (length (ls ! row))]")
    case None
    with find_before_col [OF assms(1), where s = "ls ! row" and col = col] r show ?thesis
      by (simp add: indexOf_nonempty [OF assms(1)] find_map_Pair Let_def del: upt_Suc)
  next
    case (Some k)
    have fb: "find (occursAt (ls ! row) q) [0 ..< col] = (if k < col then Some k else None)"
      using find_before_col [OF assms(1), where s = "ls ! row" and col = col] Some by simp
    show ?thesis
      using Some r fb
      by (simp add: indexOf_nonempty [OF assms(1)] find_map_Pair Let_def del: upt_Suc)
  qed
next
  case (Cons r rs)
  then have r: "lineOpt ls (int r) = Some (ls ! r)" and lt: "r < row"
    using assms(3) by (simp_all add: lineOpt_def)
  show ?case
  proof (cases "find (occursAt (ls ! r) q) [0 ..< Suc (length (ls ! r))]")
    case None
    with Cons r show ?thesis
      by (simp add: indexOf_nonempty [OF assms(1)] find_append_cases find_map_Pair Let_def
          del: upt_Suc)
  next
    case (Some k)
    with Cons r lt show ?thesis
      by (simp add: indexOf_nonempty [OF assms(1)] find_append_cases find_map_Pair Let_def
          del: upt_Suc)
  qed
qed



lemma length_toCodePoints_le: "length (toCodePoints s) \<le> length s"
  by (induction s rule: toCodePoints.induct) auto

lemma noSurrogatePairs_singletons:
  "noSurrogatePairs s \<Longrightarrow> toCodePoints s = map (\<lambda>u. [u]) s"
proof (induction s rule: toCodePoints.induct)
  case (3 u v rest)
  show ?case
  proof (cases "isHighSurrogate u \<and> isLowSurrogate v")
    case True
    then show ?thesis
      using "3.prems" length_toCodePoints_le [of rest] by (simp add: noSurrogatePairs_def)
  next
    case False
    then have eq: "toCodePoints (u # v # rest) = [u] # toCodePoints (v # rest)"
      by simp
    with "3.prems" have "noSurrogatePairs (v # rest)"
      by (simp add: noSurrogatePairs_def del: toCodePoints.simps)
    with "3.IH"(2) [OF False] have "toCodePoints (v # rest) = map (\<lambda>u. [u]) (v # rest)"
      by blast
    with eq show ?thesis by (simp del: toCodePoints.simps)
  qed
qed (simp_all add: noSurrogatePairs_def)

lemma singletons_noSurrogatePairs:
  "toCodePoints s = map (\<lambda>u. [u]) s \<Longrightarrow> noSurrogatePairs s"
  by (metis length_map noSurrogatePairs_def)

lemma singletons_Cons:
  "toCodePoints (u # s) = map (\<lambda>u. [u]) (u # s) \<Longrightarrow> toCodePoints s = map (\<lambda>u. [u]) s"
  by (cases s) (auto split: if_splits)

lemma singletons_drop:
  "toCodePoints s = map (\<lambda>u. [u]) s \<Longrightarrow> toCodePoints (drop c s) = map (\<lambda>u. [u]) (drop c s)"
proof (induction c arbitrary: s)
  case 0
  then show ?case by simp
next
  case (Suc c)
  then show ?case
    by (cases s) (simp_all add: singletons_Cons del: toCodePoints.simps)
qed

lemma singletons_take:
  "toCodePoints s = map (\<lambda>u. [u]) s \<Longrightarrow> toCodePoints (take n s) = map (\<lambda>u. [u]) (take n s)"
proof (induction s arbitrary: n rule: toCodePoints.induct)
  case (3 u v rest)
  then have np: "\<not> (isHighSurrogate u \<and> isLowSurrogate v)" by (auto split: if_splits)
  with 3 have tl: "toCodePoints (v # rest) = map (\<lambda>u. [u]) (v # rest)" by simp
  show ?case
  proof (cases n)
    case 0
    then show ?thesis by simp
  next
    case (Suc m)
    show ?thesis
    proof (cases m)
      case 0
      with Suc show ?thesis by simp
    next
      case (Suc k)
      with \<open>n = Suc m\<close> np "3.IH"(2) [OF np tl, of m] show ?thesis by simp
    qed
  qed
next
  case (2 u)
  then show ?case by (cases n) simp_all
qed simp

lemma cpOccursAt_offsets:
  assumes "noSurrogatePairs line"
  shows "cpOccursAt line q c \<longleftrightarrow> occursAt line q c"
proof -
  have single: "toCodePoints line = map (\<lambda>u. [u]) line"
    using assms by (rule noSurrogatePairs_singletons)
  show ?thesis
  proof
    assume "cpOccursAt line q c"
    then have "map (\<lambda>u. [u]) (take (length (toCodePoints q)) (drop c line)) = toCodePoints q"
      by (simp add: cpOccursAt_def single take_map drop_map)
    then have "concat (map (\<lambda>u. [u]) (take (length (toCodePoints q)) (drop c line))) = q"
      by (simp add: concat_toCodePoints)
    then have q: "take (length (toCodePoints q)) (drop c line) = q"
      by (simp add: concat_map_singleton)
    then have "take (length q) (drop c line) = q"
      by (metis append_eq_conv_conj append_take_drop_id)
    then show "occursAt line q c" by (simp add: occursAt_def)
  next
    assume "occursAt line q c"
    then have q: "q = take (length q) (drop c line)" by (simp add: occursAt_def)
    have "toCodePoints q = map (\<lambda>u. [u]) q"
      using singletons_take [OF singletons_drop [OF single, of c], of "length q"] q by simp
    then show "cpOccursAt line q c"
      using q by (simp add: cpOccursAt_def single take_map drop_map)
  qed
qed

lemma scanOrder_offsets:
  assumes "row < length ls" and "\<forall>line\<in>set ls. noSurrogatePairs line"
  shows "scanOrder ls row col =
           map (Pair row) [col + 1 ..< Suc (length (ls ! row))] @
           concat (map (\<lambda>r. map (Pair r) [0 ..< Suc (length (ls ! r))]) [row + 1 ..< length ls]) @
           concat (map (\<lambda>r. map (Pair r) [0 ..< Suc (length (ls ! r))]) [0 ..< row]) @
           map (Pair row) [0 ..< col]"
proof -
  have len: "length (toCodePoints (ls ! r)) = length (ls ! r)" if "r < length ls" for r
    using assms(2) that by (simp add: noSurrogatePairs_def)
  have rows: "map (\<lambda>r. map (Pair r) [0 ..< Suc (length (toCodePoints (ls ! r)))]) rs =
              map (\<lambda>r. map (Pair r) [0 ..< Suc (length (ls ! r))]) rs"
    if "\<forall>r\<in>set rs. r < length ls" for rs
    using that by (induction rs) (simp_all add: len del: upt_Suc)
  have "\<forall>r\<in>set [row + 1 ..< length ls]. r < length ls"
    and "\<forall>r\<in>set [0 ..< row]. r < length ls"
    using assms(1) by auto
  then show ?thesis
    unfolding scanOrder_def using assms(1) by (simp only: rows len)
qed

lemma firstMatch_offsets:
  assumes "row < length ls" and "\<forall>line\<in>set ls. noSurrogatePairs line"
  shows "firstMatch ls q row col =
           find (\<lambda>(r, c). occursAt (ls ! r) q c)
             (map (Pair row) [col + 1 ..< Suc (length (ls ! row))] @
              concat (map (\<lambda>r. map (Pair r) [0 ..< Suc (length (ls ! r))]) [row + 1 ..< length ls]) @
              concat (map (\<lambda>r. map (Pair r) [0 ..< Suc (length (ls ! r))]) [0 ..< row]) @
              map (Pair row) [0 ..< col])"
proof -
  have "find (\<lambda>(r, c). cpOccursAt (ls ! r) q c) (scanOrder ls row col) =
        find (\<lambda>(r, c). occursAt (ls ! r) q c) (scanOrder ls row col)"
  proof (rule find_cong [OF refl])
    fix x assume "x \<in> set (scanOrder ls row col)"
    then have "fst x < length ls"
      using assms(1) by (auto simp: scanOrder_def)
    then have "noSurrogatePairs (ls ! fst x)"
      using assms(2) by simp
    then show "(case x of (r, c) \<Rightarrow> cpOccursAt (ls ! r) q c) =
               (case x of (r, c) \<Rightarrow> occursAt (ls ! r) q c)"
      by (cases x) (simp add: cpOccursAt_offsets)
  qed
  then show ?thesis
    by (simp only: firstMatch_def scanOrder_offsets [OF assms])
qed

section \<open>The line-count invariant\<close>

text \<open>
  C1, as the code has it. A command applied to a state with at least one line returns a
  state with at least one line, and it does return one whenever the cursor row is a row
  of the buffer. \<^verbatim>\<open>vim_delete_line\<close> leaves exactly one empty line and the cursor at
  (0,0) when the buffer has one line, or when the count clamped to the lines from the
  cursor row on, \<open>min count (length - cursorRow)\<close>, reaches the number of lines of the
  buffer (which needs the cursor on the first row). When the cursor is on a later row
  and the count covers the lines from there to the end, it removes those lines and
  keeps the ones above, with the cursor at the start of the last of them.
\<close>

theorem lines_never_empty:
  assumes "lines s \<noteq> []"
  shows "(\<forall>s'. handleVimAction H s c = Inr s' \<longrightarrow> lines s' \<noteq> []) \<and>
         (0 \<le> cursorRow s \<and> cursorRow s < int (length (lines s)) \<longrightarrow>
            (\<exists>s'. handleVimAction H s c = Inr s')) \<and>
         (length (lines s) = 1 \<or>
          int (length (lines s)) \<le> min n (int (length (lines s)) - cursorRow s) \<longrightarrow>
            (\<exists>s'. handleVimAction H s (vim_delete_line n) = Inr s' \<and>
                  lines s' = [[]] \<and> cursorRow s' = 0 \<and> cursorCol s' = 0)) \<and>
         (0 < cursorRow s \<and> cursorRow s < int (length (lines s)) \<and>
          int (length (lines s)) - cursorRow s \<le> n \<longrightarrow>
            (\<exists>s'. handleVimAction H s (vim_delete_line n) = Inr s' \<and>
                  lines s' = take (nat (cursorRow s)) (lines s) \<and>
                  cursorRow s' = cursorRow s - 1 \<and> cursorCol s' = 0))"
proof (intro conjI allI impI)
  fix s' assume "handleVimAction H s c = Inr s'"
  then show "lines s' \<noteq> []" using assms by (rule handleVimAction_lines [rotated])
next
  assume "0 \<le> cursorRow s \<and> cursorRow s < int (length (lines s))"
  then show "\<exists>s'. handleVimAction H s c = Inr s'"
    using handleVimAction_returns by blast
next
  assume "length (lines s) = 1 \<or>
          int (length (lines s)) \<le> min n (int (length (lines s)) - cursorRow s)"
  then show "\<exists>s'. handleVimAction H s (vim_delete_line n) = Inr s' \<and>
                  lines s' = [[]] \<and> cursorRow s' = 0 \<and> cursorCol s' = 0"
    using assms by (auto simp: deleteLine_def Let_def)
next
  assume a: "0 < cursorRow s \<and> cursorRow s < int (length (lines s)) \<and>
          int (length (lines s)) - cursorRow s \<le> n"
  then have m: "min n (int (length (lines s)) - cursorRow s) = int (length (lines s)) - cursorRow s"
    by simp
  have sp: "splice (lines s) (cursorRow s) (int (length (lines s)) - cursorRow s) =
              take (nat (cursorRow s)) (lines s)"
    using a by (simp add: splice_def Let_def)
  have "nat (cursorRow s) \<le> length (lines s)"
    using a by linarith
  then have len: "int (length (take (nat (cursorRow s)) (lines s))) = cursorRow s"
    using a by (simp add: min_absorb2)
  show "\<exists>s'. handleVimAction H s (vim_delete_line n) = Inr s' \<and>
                  lines s' = take (nat (cursorRow s)) (lines s) \<and>
                  cursorRow s' = cursorRow s - 1 \<and> cursorCol s' = 0"
    using a unfolding handleVimAction.simps deleteLine_def Let_def m lines_pushUndo sp len
    by auto
qed

theorem lines_never_empty_witness:
  "lines (projr (handleVimAction noWords (mkState [js ''abc'', js ''def''] 0 0)
                   (vim_delete_line 2))) = [[]] \<and>
   lines (projr (handleVimAction noWords (mkState [js ''abc'', js ''def'', js ''ghi''] 1 0)
                   (vim_delete_line 5))) = [js ''abc'']"
  using lines_never_empty [of "mkState [js ''abc'', js ''def''] 0 0" noWords "vim_delete_line 2" 2]
    lines_never_empty [of "mkState [js ''abc'', js ''def'', js ''ghi''] 1 0" noWords
      "vim_delete_line 5" 5]
  by (simp add: mkState_def)

text \<open>
  C1 as stated fails in its second half: with the lines \<open>a\<close>, \<open>b\<close> and the cursor on the
  second, a delete-line with count 1 covers every line from the cursor on, and the
  result is the one line \<open>a\<close>, not one empty line.
\<close>

theorem delete_last_line_counterexample:
  "handleVimAction noWords (mkState [js ''a'', js ''b''] 1 0) (vim_delete_line 1) =
     Inr ((mkState [js ''a''] 0 0)
            \<lparr>undoStack := [\<lparr>u_lines = [js ''a'', js ''b''], u_cursorRow = 1, u_cursorCol = 0\<rparr>]\<rparr>) \<and>
   int (length [js ''a'', js ''b'']) - 1 \<le> 1 \<and>
   [js ''a''] \<noteq> [[]]"
  by (simp add: deleteLine_def mkState_def pushUndo_def snapshot_def splice_def js_def Let_def)

section \<open>Cursor positions after a search\<close>

text \<open>
  C2, at a failing input. The line holds two characters outside the Basic Multilingual
  Plane (two code units each) and then \<open>x\<close>; its length is 3 code points. The cursor is
  at (0,0), a valid position. Searching \<open>x\<close> forward sets \<open>cursorCol\<close> to 4, the
  code unit offset that \<^verbatim>\<open>indexOf\<close> returns, which is beyond the line's length.
\<close>

theorem search_sets_code_unit_offset:
  "handleVimAction noWords (mkState [[0xD83D, 0xDE00, 0xD83D, 0xDE00, 0x78]] 0 0)
      (vim_search [0x78] forward) =
    Inr ((mkState [[0xD83D, 0xDE00, 0xD83D, 0xDE00, 0x78]] 0 4)\<lparr>lastSearchQuery := Some [0x78]\<rparr>) \<and>
   cpLen [0xD83D, 0xDE00, 0xD83D, 0xDE00, 0x78] = 3"
  by (simp add: search_def findMatch_def mkState_def lineAt_def indexOf_def occursAt_def
      cpLen_def isHighSurrogate_def isLowSurrogate_def)

section \<open>Undo after a command\<close>

text \<open>
  C3. Whenever dispatching a command changes the lines or pushes a snapshot, undoing the
  returned state gives back the lines and the cursor position of the state the command
  was applied to. Every command other than the two searches (which change neither)
  returns a state.
\<close>

theorem undo_restores_pre_command_state:
  "(\<forall>s'. handleVimAction H s c = Inr s' \<and> (lines s' \<noteq> lines s \<or> undoStack s' \<noteq> undoStack s) \<longrightarrow>
         lines (undo s') = lines s \<and> cursorRow (undo s') = cursorRow s \<and>
         cursorCol (undo s') = cursorCol s) \<and>
   ((\<forall>q d. c \<noteq> vim_search q d) \<and> (\<forall>d. c \<noteq> vim_search_next d) \<longrightarrow>
      (\<exists>s'. handleVimAction H s c = Inr s'))"
proof (rule conjI; intro allI impI)
  fix s'
  assume a: "handleVimAction H s c = Inr s' \<and> (lines s' \<noteq> lines s \<or> undoStack s' \<noteq> undoStack s)"
  then have "undoStack s' = undoStack s @ [snapshot s]"
    using handleVimAction_undoStack [of H s c s'] by auto
  then show "lines (undo s') = lines s \<and> cursorRow (undo s') = cursorRow s \<and>
         cursorCol (undo s') = cursorCol s"
    by (rule undo_after_snapshot)
next
  assume "(\<forall>q d. c \<noteq> vim_search q d) \<and> (\<forall>d. c \<noteq> vim_search_next d)"
  then show "\<exists>s'. handleVimAction H s c = Inr s'"
    by (cases c) simp_all
qed

theorem undo_restores_pre_command_state_witness:
  "lines (projr (handleVimAction noWords (mkState [js ''abc'', js ''def''] 0 1) (vim_delete_line 1))) =
     [js ''def''] \<and>
   lines (undo (projr (handleVimAction noWords (mkState [js ''abc'', js ''def''] 0 1)
                         (vim_delete_line 1)))) = [js ''abc'', js ''def''] \<and>
   cursorCol (undo (projr (handleVimAction noWords (mkState [js ''abc'', js ''def''] 0 1)
                             (vim_delete_line 1)))) = 1"
  using undo_restores_pre_command_state
    [of noWords "mkState [js ''abc'', js ''def''] 0 1" "vim_delete_line 1"]
  by (simp add: deleteLine_def mkState_def pushUndo_def snapshot_def splice_def js_def Let_def
      undo_def)

section \<open>The forward search\<close>

text \<open>
  C5, as the code has it. For a cursor on a row of the buffer, lines that hold no
  surrogate pair and a query that is not empty, a forward search moves the cursor to
  the first occurrence of the query in the scan order: the cursor line from column
  \<open>cursorCol + 1\<close>, each later line, then from the first line up to but not including
  the cursor position. It stores the query as \<open>lastSearchQuery\<close> whether or not it finds
  one, and without an occurrence the cursor stays. Columns are code point indices.
\<close>

theorem forward_search_finds_first_match:
  assumes "0 \<le> cursorRow s" and "cursorRow s < int (length (lines s))"
    and "0 \<le> cursorCol s" and "query \<noteq> []"
    and "\<forall>line\<in>set (lines s). noSurrogatePairs line"
  shows "handleVimAction H s (vim_search query forward) =
     Inr (case firstMatch (lines s) query (nat (cursorRow s)) (nat (cursorCol s)) of
            Some (r, c) \<Rightarrow> s\<lparr>cursorRow := int r, cursorCol := int c, preferredCol := None,
                              lastSearchQuery := Some query\<rparr>
          | None \<Rightarrow> s\<lparr>lastSearchQuery := Some query\<rparr>)"
proof -
  define row where "row = nat (cursorRow s)"
  define col where "col = nat (cursorCol s)"
  define ls where "ls = lines s"
  let ?P = "\<lambda>(r, c). occursAt (ls ! r) query c"
  let ?rows = "\<lambda>rs. concat (map (\<lambda>r. map (Pair r) [0 ..< Suc (length (ls ! r))]) rs)"
  define A where "A = find ?P (map (Pair row) [col + 1 ..< Suc (length (ls ! row))])"
  define B where "B = find ?P (?rows [row + 1 ..< length ls])"
  define C where "C = find ?P (?rows [0 ..< row] @ map (Pair row) [0 ..< col])"
  have row: "cursorRow s = int row" "row < length ls" and col: "cursorCol s = int col"
    using assms by (simp_all add: row_def col_def ls_def)
  have line: "lineAt ls (int row) = ls ! row"
    using row by (simp add: lineAt_def)
  have A_row: "r = row" if "A = Some (r, c)" for r c
    using find_Some_set [OF that [unfolded A_def]] by auto
  have first: "indexOf (ls ! row) query (int col + 1) =
                 (case A of Some (r, c) \<Rightarrow> int c | None \<Rightarrow> - 1)"
    using indexOf_nonempty [OF assms(4), of "int col + 1" "ls ! row"]
    by (simp add: A_def find_map_Pair nat_add_distrib del: upt_Suc split: option.splits)
  have later: "searchSubsequent ls query [int row + 1 .. int (length ls) - 1] =
                 Inr (case B of Some (r, c) \<Rightarrow> (int r, int c) | None \<Rightarrow> (- 1, - 1))"
  proof -
    have "[int row + 1 .. int (length ls) - 1] = map int [row + 1 ..< length ls]"
      using upto_as_upt [of "row + 1" "length ls"] by (simp add: add.commute)
    then show ?thesis
      using searchSubsequent_find [OF assms(4), of "[row + 1 ..< length ls]" ls]
      by (simp add: B_def del: upt_Suc)
  qed
  have wrap: "searchWrap ls query (int row) (int col) [0 .. int row] =
                Inr (case C of Some (r, c) \<Rightarrow> (int r, int c) | None \<Rightarrow> (- 1, - 1))"
  proof -
    have "[0 .. int row] = map int [0 ..< row] @ [int row]"
      using upto_as_upt [of 0 "Suc row"] by simp
    then show ?thesis
      using searchWrap_find [OF assms(4) _ row(2), of "[0 ..< row]" col]
      by (simp add: C_def del: upt_Suc)
  qed
  have fm: "firstMatch ls query row col =
              (case A of Some p \<Rightarrow> Some p
               | None \<Rightarrow> (case B of Some p \<Rightarrow> Some p | None \<Rightarrow> C))"
    using firstMatch_offsets [OF row(2), of query col] assms(5)
    by (simp add: ls_def find_append_cases A_def B_def C_def del: upt_Suc
        split: option.splits)
  have "findMatch s query forward =
          (let idx = indexOf (ls ! row) query (int col + 1)
           in if idx \<noteq> - 1 then Inr (int row, idx)
              else (case searchSubsequent ls query [int row + 1 .. int (length ls) - 1] of
                      Inl e \<Rightarrow> Inl e
                    | Inr (foundRow, foundCol) \<Rightarrow>
                        if foundRow = - 1
                        then searchWrap ls query (int row) (int col) [0 .. int row]
                        else Inr (foundRow, foundCol)))"
    unfolding findMatch_def ls_def [symmetric] row(1) col line by simp
  then have "findMatch s query forward =
          Inr (case firstMatch ls query row col of
                 Some (r, c) \<Rightarrow> (int r, int c) | None \<Rightarrow> (- 1, - 1))"
    unfolding first later wrap fm
    by (cases A; cases B; cases C) (auto simp: Let_def dest: A_row)
  then show ?thesis
    unfolding handleVimAction.simps search_def ls_def [symmetric] row_def [symmetric]
      col_def [symmetric]
    by (cases "firstMatch ls query row col") auto
qed

theorem forward_search_finds_first_match_witness:
  "handleVimAction noWords (mkState [js ''ab'', js ''cab''] 0 1) (vim_search (js ''a'') forward) =
     Inr ((mkState [js ''ab'', js ''cab''] 1 1)\<lparr>lastSearchQuery := Some (js ''a'')\<rparr>)"
  using forward_search_finds_first_match
    [of "mkState [js ''ab'', js ''cab''] 0 1" "js ''a''" noWords]
  by (simp add: firstMatch_def scanOrder_def cpOccursAt_def noSurrogatePairs_def mkState_def
      js_def isHighSurrogate_def isLowSurrogate_def)

text \<open>
  C5 as stated fails for the empty query: on an empty line followed by the line \<open>x\<close>,
  with the cursor at (0,0), \<^verbatim>\<open>indexOf\<close> clamps the start to the end of the empty line and
  reports the empty query there, so the cursor stays at (0,0), while the first
  occurrence in the scan order is at (1,0).
\<close>

theorem empty_query_counterexample:
  "handleVimAction noWords (mkState [[], js ''x''] 0 0) (vim_search [] forward) =
     Inr ((mkState [[], js ''x''] 0 0)\<lparr>lastSearchQuery := Some []\<rparr>) \<and>
   firstMatch [[], js ''x''] [] 0 0 = Some (1, 0)"
  by (simp add: search_def findMatch_def mkState_def lineAt_def indexOf_def occursAt_def
      firstMatch_def scanOrder_def cpOccursAt_def js_def)

section \<open>Selections\<close>

text \<open>
  C6. With a selection anchor set, \<^verbatim>\<open>vim_delete_char\<close> and \<^verbatim>\<open>vim_yank_selection\<close> take as
  start and end the anchor and the cursor, ordered by row and then by column. Both
  include the character at the end: the deletion passes \<open>endCol + 1\<close> as the exclusive
  end to the range replacement, and the yanked text is sliced up to \<open>endCol + 1\<close>. With
  the lines \<open>foo\<close>, \<open>bar\<close>, the anchor at (0,1) and the cursor at (1,1), the yank puts
  \<open>oo\<close>, a line break and \<open>ba\<close> in the clipboard.
\<close>

theorem selection_is_ordered_and_inclusive:
  assumes "selectionAnchor s = Some (ar, ac)"
  shows
    "(\<exists>sr sc er ec.
        (sr < er \<or> (sr = er \<and> sc \<le> ec)) \<and>
        {(sr, sc), (er, ec)} = {(ar, ac), (cursorRow s, cursorCol s)} \<and>
        (\<forall>n. handleVimAction H s (vim_delete_char n) =
               Inr ((replaceRangeInternal (pushUndo s) sr sc er (ec + 1) [])
                      \<lparr>selectionAnchor := None\<rparr>)) \<and>
        handleVimAction H s vim_yank_selection =
          Inr (s\<lparr>clipboard := Some
                 (if sr = er then cpSlice (lineAt (lines s) sr) sc (Some (ec + 1))
                  else cpSlice (lineAt (lines s) sr) sc None @ [newline] @
                       concat (map (\<lambda>i. lineAt (lines s) i @ [newline]) [sr + 1 .. er - 1]) @
                       cpSlice (lineAt (lines s) er) 0 (Some (ec + 1)))\<rparr>)) \<and>
     handleVimAction H ((mkState [js ''foo'', js ''bar''] 1 1)\<lparr>selectionAnchor := Some (0, 1)\<rparr>)
         vim_yank_selection =
       Inr ((mkState [js ''foo'', js ''bar''] 1 1)
              \<lparr>selectionAnchor := Some (0, 1),
               clipboard := Some (js ''oo'' @ [newline] @ js ''ba'')\<rparr>)"
proof
  obtain sr sc er ec where r: "selectionRange (ar, ac) (cursorRow s) (cursorCol s) = (sr, sc, er, ec)"
    by (metis prod_cases4)
  show "\<exists>sr sc er ec.
        (sr < er \<or> (sr = er \<and> sc \<le> ec)) \<and>
        {(sr, sc), (er, ec)} = {(ar, ac), (cursorRow s, cursorCol s)} \<and>
        (\<forall>n. handleVimAction H s (vim_delete_char n) =
               Inr ((replaceRangeInternal (pushUndo s) sr sc er (ec + 1) [])
                      \<lparr>selectionAnchor := None\<rparr>)) \<and>
        handleVimAction H s vim_yank_selection =
          Inr (s\<lparr>clipboard := Some
                 (if sr = er then cpSlice (lineAt (lines s) sr) sc (Some (ec + 1))
                  else cpSlice (lineAt (lines s) sr) sc None @ [newline] @
                       concat (map (\<lambda>i. lineAt (lines s) i @ [newline]) [sr + 1 .. er - 1]) @
                       cpSlice (lineAt (lines s) er) 0 (Some (ec + 1)))\<rparr>)"
    using selectionRange_ordered [OF r] assms r
    by (intro exI [of _ sr] exI [of _ sc] exI [of _ er] exI [of _ ec])
       (simp add: deleteChar_def yankSelection_def middleLines_concat)
next
  show "handleVimAction H ((mkState [js ''foo'', js ''bar''] 1 1)\<lparr>selectionAnchor := Some (0, 1)\<rparr>)
         vim_yank_selection =
       Inr ((mkState [js ''foo'', js ''bar''] 1 1)
              \<lparr>selectionAnchor := Some (0, 1),
               clipboard := Some (js ''oo'' @ [newline] @ js ''ba'')\<rparr>)"
    by (simp add: yankSelection_def mkState_def selectionRange_def js_def lineAt_def cpSlice_def
        isHighSurrogate_def isLowSurrogate_def newline_def)
qed

theorem selection_is_ordered_and_inclusive_witness:
  "handleVimAction noWords ((mkState [js ''abcd''] 0 1)\<lparr>selectionAnchor := Some (0, 2)\<rparr>)
       vim_yank_selection =
     Inr ((mkState [js ''abcd''] 0 1)\<lparr>selectionAnchor := Some (0, 2), clipboard := Some (js ''bc'')\<rparr>)"
proof -
  let ?s = "(mkState [js ''abcd''] 0 1)\<lparr>selectionAnchor := Some (0, 2)\<rparr>"
  have a: "selectionAnchor ?s = Some (0, 2)" by simp
  from selection_is_ordered_and_inclusive [OF a, of noWords]
  obtain sr sc er ec where
    o: "sr < er \<or> (sr = er \<and> sc \<le> ec)" and
    e: "{(sr, sc), (er, ec)} = {(0, 2), (cursorRow ?s, cursorCol ?s)}" and
    y: "handleVimAction noWords ?s vim_yank_selection =
          Inr (?s\<lparr>clipboard := Some
                 (if sr = er then cpSlice (lineAt (lines ?s) sr) sc (Some (ec + 1))
                  else cpSlice (lineAt (lines ?s) sr) sc None @ [newline] @
                       concat (map (\<lambda>i. lineAt (lines ?s) i @ [newline]) [sr + 1 .. er - 1]) @
                       cpSlice (lineAt (lines ?s) er) 0 (Some (ec + 1)))\<rparr>)"
    by blast
  from e have "(sr, sc) = (0, 1) \<and> (er, ec) = (0, 2) \<or> (sr, sc) = (0, 2) \<and> (er, ec) = (0, 1)"
    by (auto simp: mkState_def doubleton_eq_iff)
  with o have "sr = 0 \<and> sc = 1 \<and> er = 0 \<and> ec = 2" by auto
  with y show ?thesis
    by (simp add: mkState_def js_def lineAt_def cpSlice_def isHighSurrogate_def isLowSurrogate_def)
qed

text \<open>
  C9. With a selection anchor set, \<^verbatim>\<open>vim_delete_char\<close> returns the same state for every
  count. The range it deletes runs from the earlier to the later of the anchor and the
  cursor (by row, then by column) and includes the character at the later position: what
  stays is the start line before the start column joined to the end line behind the end
  column. The returned state has no selection anchor.
\<close>

theorem delete_char_with_selection:
  assumes "selectionAnchor s = Some (ar, ac)"
  shows
    "\<exists>sr sc er ec s'.
        (sr < er \<or> (sr = er \<and> sc \<le> ec)) \<and>
        {(sr, sc), (er, ec)} = {(ar, ac), (cursorRow s, cursorCol s)} \<and>
        (\<forall>n. handleVimAction H s (vim_delete_char n) = Inr s') \<and>
        selectionAnchor s' = None \<and>
        lines s' =
          take (nat sr) (lines s) @
          splitLines (cpSlice (lineAt (lines s) sr) 0 (Some sc) @
                      cpSlice (lineAt (lines s) er) (ec + 1) None) @
          drop (nat er + 1) (lines s) \<and>
        (newline \<notin> set (lineAt (lines s) sr) \<and> newline \<notin> set (lineAt (lines s) er) \<longrightarrow>
           lines s' =
             take (nat sr) (lines s) @
             [cpSlice (lineAt (lines s) sr) 0 (Some sc) @ cpSlice (lineAt (lines s) er) (ec + 1) None] @
             drop (nat er + 1) (lines s))"
proof -
  obtain sr sc er ec where r: "selectionRange (ar, ac) (cursorRow s) (cursorCol s) = (sr, sc, er, ec)"
    by (metis prod_cases4)
  let ?s' = "(replaceRangeInternal (pushUndo s) sr sc er (ec + 1) [])\<lparr>selectionAnchor := None\<rparr>"
  have nl: "splitLines (cpSlice (lineAt (lines s) sr) 0 (Some sc) @
                      cpSlice (lineAt (lines s) er) (ec + 1) None) =
           [cpSlice (lineAt (lines s) sr) 0 (Some sc) @ cpSlice (lineAt (lines s) er) (ec + 1) None]"
    if "newline \<notin> set (lineAt (lines s) sr)" "newline \<notin> set (lineAt (lines s) er)"
    using that set_cpSlice [of "lineAt (lines s) sr" 0 "Some sc"]
      set_cpSlice [of "lineAt (lines s) er" "ec + 1" None]
    by (intro splitLines_no_newline) auto
  show ?thesis
    using selectionRange_ordered [OF r] assms r nl
    by (intro exI [of _ sr] exI [of _ sc] exI [of _ er] exI [of _ ec] exI [of _ ?s'])
       (simp add: deleteChar_def lines_replaceRangeInternal lines_pushUndo)
qed

theorem delete_char_with_selection_witness:
  "handleVimAction noWords ((mkState [js ''foo'', js ''bar''] 1 1)\<lparr>selectionAnchor := Some (0, 1)\<rparr>)
       (vim_delete_char 7) =
   handleVimAction noWords ((mkState [js ''foo'', js ''bar''] 1 1)\<lparr>selectionAnchor := Some (0, 1)\<rparr>)
       (vim_delete_char 1)"
proof -
  let ?s = "(mkState [js ''foo'', js ''bar''] 1 1)\<lparr>selectionAnchor := Some (0, 1)\<rparr>"
  have a: "selectionAnchor ?s = Some (0, 1)" by simp
  from delete_char_with_selection [OF a, of noWords]
  obtain s' where "\<forall>n. handleVimAction noWords ?s (vim_delete_char n) = Inr s'"
    by blast
  then show ?thesis by simp
qed

section \<open>The preferred column\<close>




end
